theory Spec2Isabelle
  imports Main
begin

section \<open>Tables of the game database\<close>

text \<open>
  The handlers of \<^verbatim>\<open>app/routers/game.py\<close> keep all their state in four SQL tables.
  A table is a list of rows in insertion order; a row is a record with the columns the
  statements of the handlers read or write. A nullable column that some statement can
  leave or find NULL is an \<open>option\<close>. The columns no statement reads (the serial ids of
  rooms, votes and round results, the timestamp of a round result) are left out.
  SQL INT and Python integers are \<open>int\<close>, with the bound of INT written out where a
  statement computes a new value (the score); texts are \<open>string\<close>.

  The statements of the handlers use two columns of \<^verbatim>\<open>rooms\<close> (\<^verbatim>\<open>host_name\<close>,
  \<^verbatim>\<open>current_phase\<close>) and a conflict target on \<^verbatim>\<open>votes\<close> that the CREATE TABLE
  statements of \<^verbatim>\<open>app/models.py\<close> do not declare; the tables below are the ones the
  statements of the handlers run against.
\<close>

record room =
  r_code :: string
  r_mafia_count :: int
  r_host_name :: string
  r_status :: string
  r_current_phase :: "string option"

record player =
  p_id :: nat
  p_room_code :: string
  p_name :: string
  p_is_mafia :: "bool option"
  p_eliminated :: bool
  p_word :: "string option"
  p_score :: int
  p_round :: int

record vote_row =
  v_room_code :: string
  v_round :: int
  v_voter_name :: string
  v_voted_name :: string

record round_result =
  rr_room_code :: string
  rr_round :: int
  rr_eliminated_player :: string
  rr_was_mafia :: "bool option"

record db =
  rooms :: "room list"
  players :: "player list"
  votes :: "vote_row list"
  round_results :: "round_result list"
  players_id_seq :: nat

definition empty_db :: db where
  "empty_db = \<lparr>rooms = [], players = [], votes = [], round_results = [], players_id_seq = 1\<rparr>"

section \<open>Errors and replies\<close>

text \<open>
  \<open>HTTPException status detail\<close> is the exception the handlers raise themselves;
  \<open>Unhandled name\<close> is a Python exception that no handler catches (the framework answers
  500). A handler returns its reply, or the error, together with the database it leaves.
\<close>

datatype error = HTTPException nat string | Unhandled string

datatype reply =
    RoomCreated string bool
  | Joined string string
  | RoundStarted
  | VotingStarted
  | GameEnded
  | Voted string string
  | Eliminated string
  | NextRoundStarted int string string

type_synonym response = "error + reply"

section \<open>Helpers\<close>

text \<open>\<^verbatim>\<open>str.upper()\<close> on the ASCII letters; room codes are ASCII.\<close>

definition upper_char :: "char \<Rightarrow> char" where
  "upper_char c =
     (let n = (of_char c :: nat) in if 97 \<le> n \<and> n \<le> 122 then char_of (n - 32) else c)"

definition upper :: "string \<Rightarrow> string" where
  "upper s = map upper_char s"

text \<open>\<^verbatim>\<open>SELECT ... FROM rooms WHERE code = $1\<close>, first row.\<close>

definition fetch_room :: "db \<Rightarrow> string \<Rightarrow> room option" where
  "fetch_room d rc = find (\<lambda>r. r_code r = rc) (rooms d)"

text \<open>
  The host verification of the host-gated handlers:
  \<^verbatim>\<open>await pool.fetchval("SELECT host_name FROM rooms WHERE code = $1", room_code) == name\<close>.
  With no such room \<^verbatim>\<open>fetchval\<close> is None, and \<^verbatim>\<open>None == name\<close> is False.
\<close>

definition is_host :: "db \<Rightarrow> string \<Rightarrow> string \<Rightarrow> bool" where
  "is_host d rc name = (map_option r_host_name (fetch_room d rc) = Some name)"

text \<open>\<^verbatim>\<open>SELECT id FROM players WHERE room_code = $1\<close>.\<close>

definition room_players :: "db \<Rightarrow> string \<Rightarrow> player list" where
  "room_players d rc = filter (\<lambda>p. p_room_code p = rc) (players d)"

definition room_player_ids :: "db \<Rightarrow> string \<Rightarrow> nat list" where
  "room_player_ids d rc = map p_id (room_players d rc)"

text \<open>\<^verbatim>\<open>SELECT is_mafia FROM players WHERE room_code = $1 AND name = $2\<close>, first row.\<close>

definition fetch_player :: "db \<Rightarrow> string \<Rightarrow> string \<Rightarrow> player option" where
  "fetch_player d rc name = find (\<lambda>p. p_room_code p = rc \<and> p_name p = name) (players d)"

text \<open>\<^verbatim>\<open>SELECT MAX(round) FROM round_results WHERE room_code = $1\<close>: NULL on no rows.\<close>

definition max_round :: "db \<Rightarrow> string \<Rightarrow> int option" where
  "max_round d rc =
     (case map rr_round (filter (\<lambda>r. rr_room_code r = rc) (round_results d)) of
        [] \<Rightarrow> None
      | x # xs \<Rightarrow> Some (fold max xs x))"

text \<open>\<^verbatim>\<open>... or 1\<close>: Python's \<^verbatim>\<open>or\<close> replaces None and 0.\<close>

definition current_round :: "db \<Rightarrow> string \<Rightarrow> int" where
  "current_round d rc =
     (case max_round d rc of None \<Rightarrow> 1 | Some m \<Rightarrow> if m = 0 then 1 else m)"

text \<open>The votes of a room and round: \<^verbatim>\<open>FROM votes WHERE room_code = $1 AND round = $2\<close>.\<close>

definition round_votes :: "db \<Rightarrow> string \<Rightarrow> int \<Rightarrow> vote_row list" where
  "round_votes d rc r = filter (\<lambda>v. v_room_code v = rc \<and> v_round v = r) (votes d)"

text \<open>\<^verbatim>\<open>SELECT voted_name FROM votes WHERE room_code = $1 AND round = $2\<close>\<close>

definition voted_names :: "db \<Rightarrow> string \<Rightarrow> int \<Rightarrow> string list" where
  "voted_names d rc r = map v_voted_name (round_votes d rc r)"

text \<open>The \<^verbatim>\<open>COUNT(*)\<close> of the group of \<open>name\<close>: the votes the name received.\<close>

definition votes_received :: "db \<Rightarrow> string \<Rightarrow> int \<Rightarrow> string \<Rightarrow> nat" where
  "votes_received d rc r name =
     length (filter (\<lambda>v. v_voted_name v = name) (round_votes d rc r))"

text \<open>
  \<^verbatim>\<open>SELECT voted_name, COUNT(*) as votes ... GROUP BY voted_name ORDER BY votes DESC LIMIT 1\<close>.
  The query returns no row when the room has no vote in the round, and otherwise one of
  the names with the highest count. SQL leaves open which one; \<open>top_voted\<close> lists the
  names it can be, and the argument \<open>k\<close> says which of them the database returns. The
  handlers read only the name of the row.
\<close>

definition top_voted :: "db \<Rightarrow> string \<Rightarrow> int \<Rightarrow> string list" where
  "top_voted d rc r =
     (let names = remdups (voted_names d rc r)
      in filter (\<lambda>n. list_all (\<lambda>m. votes_received d rc r m \<le> votes_received d rc r n) names)
           names)"

definition vote_result :: "db \<Rightarrow> string \<Rightarrow> int \<Rightarrow> nat \<Rightarrow> string option" where
  "vote_result d rc r k =
     (case top_voted d rc r of
        [] \<Rightarrow> None
      | n # ns \<Rightarrow> Some ((n # ns) ! (k mod length (n # ns))))"

text \<open>\<^verbatim>\<open>UPDATE rooms SET status = 'ended' WHERE code = $1\<close>.\<close>

definition set_ended :: "db \<Rightarrow> string \<Rightarrow> db" where
  "set_ended d rc =
     d\<lparr>rooms := map (\<lambda>r. if r_code r = rc then r\<lparr>r_status := ''ended''\<rparr> else r) (rooms d)\<rparr>"

text \<open>\<^verbatim>\<open>UPDATE rooms SET status = 'ongoing', current_phase = 'discussion' WHERE code = $1\<close>.\<close>

definition set_ongoing :: "db \<Rightarrow> string \<Rightarrow> db" where
  "set_ongoing d rc =
     d\<lparr>rooms := map (\<lambda>r. if r_code r = rc
                            then r\<lparr>r_status := ''ongoing'', r_current_phase := Some ''discussion''\<rparr>
                            else r) (rooms d)\<rparr>"

text \<open>\<^verbatim>\<open>INSERT INTO round_results (room_code, round, eliminated_player, was_mafia)\<close>.\<close>

definition insert_round_result :: "db \<Rightarrow> string \<Rightarrow> int \<Rightarrow> string \<Rightarrow> bool option \<Rightarrow> db" where
  "insert_round_result d rc r name wm =
     d\<lparr>round_results := round_results d @
        [\<lparr>rr_room_code = rc, rr_round = r, rr_eliminated_player = name, rr_was_mafia = wm\<rparr>]\<rparr>"

text \<open>
  \<^verbatim>\<open>UPDATE players SET score = score + 1 WHERE\<close> the row satisfies \<open>P\<close>. The column is
  an INT: when a selected row holds the largest value the statement raises (integer out
  of range) and writes nothing. \<open>raise_scores\<close> is what the statement writes when it
  succeeds.
\<close>

definition int4_max :: int where
  "int4_max = 2147483647"

definition raise_scores :: "db \<Rightarrow> (player \<Rightarrow> bool) \<Rightarrow> db" where
  "raise_scores d P =
     d\<lparr>players := map (\<lambda>p. if P p then p\<lparr>p_score := p_score p + 1\<rparr> else p) (players d)\<rparr>"

definition bump_scores :: "db \<Rightarrow> (player \<Rightarrow> bool) \<Rightarrow> error + db" where
  "bump_scores d P =
     (if list_ex (\<lambda>p. P p \<and> int4_max \<le> p_score p) (players d)
      then Inl (Unhandled ''NumericValueOutOfRangeError'')
      else Inr (raise_scores d P))"

section \<open>Role assignment\<close>

text \<open>
  The outcome of the word request of \<^verbatim>\<open>assign_words_and_roles\<close> is an argument:
  \<open>None\<close> when the request or the decoding of its answer raises (any \<^verbatim>\<open>Exception\<close>,
  among them a timeout), \<open>Some ws\<close> when the answer decodes to the list \<open>ws\<close>. Reading
  \<^verbatim>\<open>words[0], words[1]\<close> of a shorter list raises IndexError inside the same
  \<^verbatim>\<open>try\<close>, so that case takes the fallback too.
\<close>

definition pick_words :: "string list option \<Rightarrow> string \<times> string" where
  "pick_words resp =
     (case resp of
        Some (w0 # w1 # _) \<Rightarrow> (w0, w1)
      | _ \<Rightarrow> (''apple'', ''banana''))"

text \<open>
  \<^verbatim>\<open>UPDATE players SET is_mafia = $1, word = $2, round = $3, eliminated = FALSE WHERE id = $4\<close>
\<close>

definition update_role :: "nat list \<Rightarrow> string \<Rightarrow> string \<Rightarrow> int \<Rightarrow> nat \<Rightarrow> db \<Rightarrow> db" where
  "update_role mafia_ids civilian_word spy_word n pid d =
     (let is_mafia = (pid \<in> set mafia_ids);
          word = (if is_mafia then spy_word else civilian_word)
      in d\<lparr>players := map (\<lambda>p. if p_id p = pid
                                 then p\<lparr>p_is_mafia := Some is_mafia, p_word := Some word,
                                        p_round := n, p_eliminated := False\<rparr>
                                 else p) (players d)\<rparr>)"

text \<open>The loop \<^verbatim>\<open>for player in players\<close> over the ids the caller selected.\<close>

definition assign_words_and_roles ::
  "db \<Rightarrow> nat list \<Rightarrow> nat list \<Rightarrow> int \<Rightarrow> string list option \<Rightarrow> (string \<times> string) \<times> db" where
  "assign_words_and_roles d pids mafia_ids next_round_num resp =
     (let (civilian_word, spy_word) = pick_words resp
      in ((civilian_word, spy_word),
          fold (update_role mafia_ids civilian_word spy_word next_round_num) pids d))"

text \<open>
  \<^verbatim>\<open>random.sample(population, k)\<close> returns \<open>k\<close> elements at distinct positions of the
  population; its outcome is an argument of the handlers, and \<open>is_sample\<close> says which
  outcomes it can have on a population without repetitions (ids are a primary key).
  For negative \<open>k\<close> it raises ValueError, which the handlers do not catch.
\<close>

definition is_sample :: "nat list \<Rightarrow> int \<Rightarrow> nat list \<Rightarrow> bool" where
  "is_sample population k s \<longleftrightarrow>
     distinct s \<and> set s \<subseteq> set population \<and> int (length s) = k"

section \<open>Handlers\<close>

text \<open>
  \<^verbatim>\<open>generate_unique_room_code\<close>: up to ten random codes, the first that no room has.
  The random draws are the argument \<open>draws\<close>.
\<close>

definition generate_unique_room_code :: "db \<Rightarrow> (nat \<Rightarrow> string) \<Rightarrow> string option" where
  "generate_unique_room_code d draws =
     find (\<lambda>c. fetch_room d c = None) (map draws [0..<10])"

text \<open>
  \<^verbatim>\<open>INSERT INTO players (room_code, name)\<close>: the id comes from the sequence, the other
  columns take their defaults. The sequence advances whether or not the insert succeeds.
\<close>

definition new_player :: "nat \<Rightarrow> string \<Rightarrow> string \<Rightarrow> player" where
  "new_player i rc name =
     \<lparr>p_id = i, p_room_code = rc, p_name = name, p_is_mafia = None, p_eliminated = False,
      p_word = None, p_score = 0, p_round = 1\<rparr>"

definition name_taken :: "db \<Rightarrow> string \<Rightarrow> string \<Rightarrow> bool" where
  "name_taken d rc name = (fetch_player d rc name \<noteq> None)"

definition insert_player :: "db \<Rightarrow> string \<Rightarrow> string \<Rightarrow> db" where
  "insert_player d rc name =
     d\<lparr>players := players d @ [new_player (players_id_seq d) rc name],
       players_id_seq := Suc (players_id_seq d)\<rparr>"

definition skip_player_id :: "db \<Rightarrow> db" where
  "skip_player_id d = d\<lparr>players_id_seq := Suc (players_id_seq d)\<rparr>"

text \<open>
  Modelled from the spec: the default of the column \<^verbatim>\<open>current_phase\<close>, which
  \<^verbatim>\<open>app/models.py\<close> does not declare; the spec's phase \<^verbatim>\<open>none\<close> is NULL here.
\<close>

definition new_room :: "string \<Rightarrow> int \<Rightarrow> string \<Rightarrow> room" where
  "new_room c mc name =
     \<lparr>r_code = c, r_mafia_count = mc, r_host_name = name, r_status = ''waiting'',
      r_current_phase = None\<rparr>"

text \<open>
  \<^verbatim>\<open>create_room\<close> turns every exception into a 500 whose detail is the exception's
  text; the detail of the failed insert stands for the message of the database.
\<close>

definition create_room :: "db \<Rightarrow> int \<Rightarrow> string \<Rightarrow> (nat \<Rightarrow> string) \<Rightarrow> response \<times> db" where
  "create_room d mafia_count name draws =
     (case generate_unique_room_code d draws of
        None \<Rightarrow> (Inl (HTTPException 500 ''500: Failed to generate unique room code''), d)
      | Some c \<Rightarrow>
          if name_taken d c name
          then (Inl (HTTPException 500 ''UniqueViolationError''), skip_player_id d)
          else (Inr (RoomCreated c True),
                insert_player (d\<lparr>rooms := rooms d @ [new_room c mafia_count name]\<rparr>) c name))"

definition join_room :: "db \<Rightarrow> string \<Rightarrow> string \<Rightarrow> response \<times> db" where
  "join_room d room_code name =
     (if length name < 1 \<or> length name > 30
      then (Inl (HTTPException 400 ''Name too short or too long''), d)
      else let rc = upper room_code in
        if fetch_room d rc = None then (Inl (HTTPException 404 ''Room not found''), d)
        else if name_taken d rc name
        then (Inl (HTTPException 400 ''Player name already taken''), skip_player_id d)
        else (Inr (Joined name rc), insert_player d rc name))"

definition start_round ::
  "db \<Rightarrow> string \<Rightarrow> string \<Rightarrow> nat list \<Rightarrow> string list option \<Rightarrow> response \<times> db" where
  "start_round d room_code name mafia_ids resp =
     (let rc = upper room_code in
      if \<not> is_host d rc name
      then (Inl (HTTPException 403 ''Only host can start the round''), d)
      else case fetch_room d rc of
        None \<Rightarrow> (Inl (HTTPException 404 ''Room not found''), d)
      | Some room \<Rightarrow>
          let pids = room_player_ids d rc in
          if int (length pids) < r_mafia_count room
          then (Inl (HTTPException 400 ''Not enough players''), d)
          else if r_mafia_count room < 0 then (Inl (Unhandled ''ValueError''), d)
          else let (ws, d1) = assign_words_and_roles d pids mafia_ids 1 resp
               in (Inr RoundStarted, set_ongoing d1 rc))"

definition start_voting :: "db \<Rightarrow> string \<Rightarrow> string \<Rightarrow> response \<times> db" where
  "start_voting d room_code name =
     (let rc = upper room_code in
      if \<not> is_host d rc name
      then (Inl (HTTPException 403 ''Only host can start voting''), d)
      else case fetch_room d rc of
        None \<Rightarrow> (Inl (HTTPException 404 ''Room not found''), d)
      | Some room \<Rightarrow>
          if r_current_phase room \<noteq> Some ''discussion''
          then (Inl (HTTPException 400 ''Can only start voting from discussion phase''), d)
          else (Inr VotingStarted,
                d\<lparr>rooms := map (\<lambda>r. if r_code r = rc
                                       then r\<lparr>r_current_phase := Some ''voting''\<rparr> else r)
                                 (rooms d)\<rparr>))"

definition end_game :: "db \<Rightarrow> string \<Rightarrow> string \<Rightarrow> response \<times> db" where
  "end_game d room_code name =
     (let rc = upper room_code in
      if \<not> is_host d rc name
      then (Inl (HTTPException 403 ''Only host can end the game''), d)
      else (Inr GameEnded,
            d\<lparr>votes := filter (\<lambda>v. v_room_code v \<noteq> rc) (votes d),
              round_results := filter (\<lambda>r. rr_room_code r \<noteq> rc) (round_results d),
              players := filter (\<lambda>p. p_room_code p \<noteq> rc) (players d),
              rooms := filter (\<lambda>r. r_code r \<noteq> rc) (rooms d)\<rparr>))"

section \<open>Votes and round resolution\<close>

text \<open>
  \<^verbatim>\<open>INSERT INTO votes ... ON CONFLICT (room_code, voter_name, round) DO UPDATE
  SET voted_name = EXCLUDED.voted_name\<close>
\<close>

definition same_vote_key :: "string \<Rightarrow> int \<Rightarrow> string \<Rightarrow> vote_row \<Rightarrow> bool" where
  "same_vote_key rc r voter v \<longleftrightarrow>
     v_room_code v = rc \<and> v_voter_name v = voter \<and> v_round v = r"

definition upsert_vote :: "db \<Rightarrow> string \<Rightarrow> int \<Rightarrow> string \<Rightarrow> string \<Rightarrow> db" where
  "upsert_vote d rc r voter voted =
     (if list_ex (same_vote_key rc r voter) (votes d)
      then d\<lparr>votes := map (\<lambda>v. if same_vote_key rc r voter v
                                 then v\<lparr>v_voted_name := voted\<rparr> else v) (votes d)\<rparr>
      else d\<lparr>votes := votes d @
                [\<lparr>v_room_code = rc, v_round = r, v_voter_name = voter, v_voted_name = voted\<rparr>]\<rparr>)"

text \<open>\<^verbatim>\<open>SELECT COUNT(DISTINCT voter_name) FROM votes WHERE room_code = $1 AND round = $2\<close>\<close>

definition distinct_voters :: "db \<Rightarrow> string \<Rightarrow> int \<Rightarrow> nat" where
  "distinct_voters d rc r = length (remdups (map v_voter_name (round_votes d rc r)))"

text \<open>
  The subquery of the first scoring statement of \<^verbatim>\<open>process_round_results\<close>:
  \<^verbatim>\<open>SELECT v.voter_name FROM votes v JOIN players p ON v.voted_name = p.name
  WHERE v.room_code = $1 AND v.round = $2 AND p.is_mafia = TRUE AND p.room_code = $1\<close>
\<close>

definition spy_voters :: "db \<Rightarrow> string \<Rightarrow> int \<Rightarrow> string list" where
  "spy_voters d rc r =
     [v_voter_name v. v \<leftarrow> round_votes d rc r, p \<leftarrow> players d,
        v_voted_name v = p_name p \<and> p_is_mafia p = Some True \<and> p_room_code p = rc]"

text \<open>
  The second scoring statement, the same in both resolution paths:
  \<^verbatim>\<open>WHERE room_code = $1 AND is_mafia = TRUE AND name NOT IN (SELECT voted_name ...)\<close>
\<close>

definition unvoted_spy :: "db \<Rightarrow> string \<Rightarrow> int \<Rightarrow> player \<Rightarrow> bool" where
  "unvoted_spy d rc r p \<longleftrightarrow>
     p_room_code p = rc \<and> p_is_mafia p = Some True \<and> p_name p \<notin> set (voted_names d rc r)"

definition award_unvoted_spies :: "db \<Rightarrow> string \<Rightarrow> int \<Rightarrow> error + db" where
  "award_unvoted_spies d rc r = bump_scores d (unvoted_spy d rc r)"

text \<open>
  The first scoring statement of \<^verbatim>\<open>process_round_results\<close>:
  \<^verbatim>\<open>WHERE room_code = $1 AND is_mafia = FALSE AND name IN (\<close>the voters for a spy\<^verbatim>\<open>)\<close>
\<close>

definition civilian_spy_voter :: "db \<Rightarrow> string \<Rightarrow> int \<Rightarrow> player \<Rightarrow> bool" where
  "civilian_spy_voter d rc r p \<longleftrightarrow>
     p_room_code p = rc \<and> p_is_mafia p = Some False \<and> p_name p \<in> set (spy_voters d rc r)"

text \<open>
  \<^verbatim>\<open>process_round_results\<close> runs inside the transaction of \<^verbatim>\<open>vote\<close>: it returns the
  database it leaves, or the exception that makes the transaction roll back.
  \<^verbatim>\<open>eliminated["is_mafia"]\<close> on a missing row is a TypeError; a NULL \<^verbatim>\<open>is_mafia\<close> is
  falsy and takes the second branch.
\<close>

definition process_round_results :: "db \<Rightarrow> string \<Rightarrow> int \<Rightarrow> nat \<Rightarrow> error + db" where
  "process_round_results d rc r k =
     (case vote_result d rc r k of
        None \<Rightarrow> Inl (HTTPException 400 ''No votes cast'')
      | Some eliminated_name \<Rightarrow>
          (case fetch_player d rc eliminated_name of
             None \<Rightarrow> Inl (Unhandled ''TypeError'')
           | Some eliminated \<Rightarrow>
               (case (if p_is_mafia eliminated = Some True
                      then bump_scores d (civilian_spy_voter d rc r)
                      else award_unvoted_spies d rc r) of
                  Inl e \<Rightarrow> Inl e
                | Inr d1 \<Rightarrow>
                    let d2 = insert_round_result d1 rc r eliminated_name (p_is_mafia eliminated)
                    in Inr (set_ended d2 rc))))"

text \<open>
  \<^verbatim>\<open>vote\<close>. The last argument is the choice of the tally query, should the vote
  complete the quorum.
\<close>

definition vote :: "db \<Rightarrow> string \<Rightarrow> string \<Rightarrow> string \<Rightarrow> nat \<Rightarrow> response \<times> db" where
  "vote d room_code voter_name voted_name k =
     (let rc = upper room_code;
          r = current_round d rc;
          d1 = upsert_vote d rc r voter_name voted_name;
          active_players = length (room_players d1 rc);
          current_votes = distinct_voters d1 rc r
      in if current_votes \<ge> active_players
         then (case process_round_results d1 rc r k of
                 Inl e \<Rightarrow> (Inl e, d)
               | Inr d2 \<Rightarrow> (Inr (Voted voter_name voted_name), d2))
         else (Inr (Voted voter_name voted_name), d1))"

text \<open>
  \<^verbatim>\<open>end_round\<close> takes the room code only (and, here, the choice of the tally query).
  Its first scoring statement is
  \<^verbatim>\<open>WHERE room_code = $1 AND name = ANY($2) AND is_mafia = FALSE\<close> with for \<^verbatim>\<open>$2\<close> the
  voters of \<^verbatim>\<open>SELECT voter_name FROM votes WHERE room_code = $1 AND round = $2 AND
  voted_name = $3\<close>. The scoring statement is its first write, so when it raises
  nothing has been written.
\<close>

definition correct_voters :: "db \<Rightarrow> string \<Rightarrow> int \<Rightarrow> string \<Rightarrow> string list" where
  "correct_voters d rc r eliminated_name =
     map v_voter_name (filter (\<lambda>v. v_voted_name v = eliminated_name) (round_votes d rc r))"

definition civilian_correct_voter :: "db \<Rightarrow> string \<Rightarrow> int \<Rightarrow> string \<Rightarrow> player \<Rightarrow> bool" where
  "civilian_correct_voter d rc r eliminated_name p \<longleftrightarrow>
     p_room_code p = rc \<and> p_name p \<in> set (correct_voters d rc r eliminated_name) \<and>
     p_is_mafia p = Some False"

definition end_round :: "db \<Rightarrow> string \<Rightarrow> nat \<Rightarrow> response \<times> db" where
  "end_round d room_code k =
     (let rc = upper room_code;
          r = current_round d rc
      in case vote_result d rc r k of
        None \<Rightarrow> (Inl (HTTPException 400 ''No votes cast''), d)
      | Some eliminated_name \<Rightarrow>
          (case fetch_player d rc eliminated_name of
             None \<Rightarrow> (Inl (HTTPException 404 ''Eliminated player not found''), d)
           | Some eliminated \<Rightarrow>
               let is_mafia = p_is_mafia eliminated
               in (case (if is_mafia = Some True
                         then bump_scores d (civilian_correct_voter d rc r eliminated_name)
                         else award_unvoted_spies d rc r) of
                     Inl e \<Rightarrow> (Inl e, d)
                   | Inr d1 \<Rightarrow>
                       let d2 = insert_round_result d1 rc r eliminated_name is_mafia
                       in (Inr (Eliminated eliminated_name), set_ended d2 rc))))"

text \<open>
  \<^verbatim>\<open>next_round\<close>: here the current round is \<^verbatim>\<open>MAX(round) or 0\<close>. Without a room
  \<^verbatim>\<open>mafia_count\<close> would be None and the comparison a TypeError; the host check
  excludes that.
\<close>

definition next_round ::
  "db \<Rightarrow> string \<Rightarrow> string \<Rightarrow> nat list \<Rightarrow> string list option \<Rightarrow> response \<times> db" where
  "next_round d room_code name mafia_ids resp =
     (let rc = upper room_code in
      if \<not> is_host d rc name
      then (Inl (HTTPException 403 ''Only host can start next round''), d)
      else
        let next_round_num = (case max_round d rc of None \<Rightarrow> 0 | Some m \<Rightarrow> m) + 1;
            pids = room_player_ids d rc
        in case fetch_room d rc of
          None \<Rightarrow> (Inl (Unhandled ''TypeError''), d)
        | Some room \<Rightarrow>
            if int (length pids) < r_mafia_count room
            then (Inl (HTTPException 400 ''Not enough players''), d)
            else if r_mafia_count room < 0 then (Inl (Unhandled ''ValueError''), d)
            else let ((civilian_word, spy_word), d1) =
                        assign_words_and_roles d pids mafia_ids next_round_num resp;
                     d2 = set_ongoing d1 rc
                 in (Inr (NextRoundStarted next_round_num civilian_word spy_word),
                     d2\<lparr>votes := filter (\<lambda>v. v_room_code v \<noteq> rc) (votes d2)\<rparr>))"

section \<open>Commands\<close>

text \<open>
  One constructor per state-changing endpoint, with the request body and the outcomes
  of the random choices, of the word request and of the tally query the handler makes.
\<close>

datatype command =
    CreateRoom int string "nat \<Rightarrow> string"
  | JoinRoom string string
  | StartRound string string "nat list" "string list option"
  | StartVoting string string
  | EndGame string string
  | Vote string string string nat
  | EndRound string nat
  | NextRound string string "nat list" "string list option"

fun handle :: "db \<Rightarrow> command \<Rightarrow> response \<times> db" where
  "handle d (CreateRoom mc name draws) = create_room d mc name draws"
| "handle d (JoinRoom rc name) = join_room d rc name"
| "handle d (StartRound rc name ms resp) = start_round d rc name ms resp"
| "handle d (StartVoting rc name) = start_voting d rc name"
| "handle d (EndGame rc name) = end_game d rc name"
| "handle d (Vote rc voter voted k) = vote d rc voter voted k"
| "handle d (EndRound rc k) = end_round d rc k"
| "handle d (NextRound rc name ms resp) = next_round d rc name ms resp"

text \<open>The database after a sequence of commands, starting from \<open>d\<close>.\<close>

fun run :: "db \<Rightarrow> command list \<Rightarrow> db" where
  "run d [] = d"
| "run d (c # cs) = run (snd (handle d c)) cs"

section \<open>Notions the properties are stated with\<close>

text \<open>A reply with status 403, 404.\<close>

definition forbidden :: "response \<Rightarrow> bool" where
  "forbidden r = (case r of Inl (HTTPException s _) \<Rightarrow> s = 403 | _ \<Rightarrow> False)"

definition not_found :: "response \<Rightarrow> bool" where
  "not_found r = (case r of Inl (HTTPException s _) \<Rightarrow> s = 404 | _ \<Rightarrow> False)"

text \<open>A spy of room \<open>rc\<close>.\<close>

definition is_spy :: "string \<Rightarrow> player \<Rightarrow> bool" where
  "is_spy rc p \<longleftrightarrow> p_room_code p = rc \<and> p_is_mafia p = Some True"

text \<open>The round results recorded for a room and round.\<close>

definition results_for :: "db \<Rightarrow> string \<Rightarrow> int \<Rightarrow> round_result list" where
  "results_for d rc r =
     filter (\<lambda>x. rr_room_code x = rc \<and> rr_round x = r) (round_results d)"

text \<open>The key of the conflict target of the vote upsert; no two rows share it.\<close>

definition vote_key :: "vote_row \<Rightarrow> string \<times> string \<times> int" where
  "vote_key v = (v_room_code v, v_voter_name v, v_round v)"

definition one_vote_per_key :: "db \<Rightarrow> bool" where
  "one_vote_per_key d = distinct (map vote_key (votes d))"

text \<open>The relation between status and phase that every room keeps.\<close>

definition phase_ok :: "room \<Rightarrow> bool" where
  "phase_ok r \<longleftrightarrow>
     (r_status r = ''ongoing'' \<longrightarrow>
        r_current_phase r = Some ''discussion'' \<or> r_current_phase r = Some ''voting'') \<and>
     (r_status r = ''waiting'' \<longrightarrow> r_current_phase r = None)"

definition phases_ok :: "db \<Rightarrow> bool" where
  "phases_ok d = list_all phase_ok (rooms d)"

text \<open>Player ids are a primary key drawn from the sequence.\<close>

definition ids_ok :: "db \<Rightarrow> bool" where
  "ids_ok d \<longleftrightarrow> distinct (map p_id (players d)) \<and> list_all (\<lambda>p. p_id p < players_id_seq d) (players d)"

text \<open>The row role assignment writes for a player.\<close>

definition with_role :: "bool \<Rightarrow> string \<Rightarrow> int \<Rightarrow> player \<Rightarrow> player" where
  "with_role m w n p = p\<lparr>p_is_mafia := Some m, p_word := Some w, p_round := n, p_eliminated := False\<rparr>"

text \<open>The database a resolution leaves, given the database \<open>d1\<close> after its scoring update.\<close>

definition resolved :: "db \<Rightarrow> string \<Rightarrow> int \<Rightarrow> string \<Rightarrow> bool option \<Rightarrow> db" where
  "resolved d1 rc r en wm = set_ended (insert_round_result d1 rc r en wm) rc"

text \<open>Room codes are unique.\<close>

definition codes_ok :: "db \<Rightarrow> bool" where
  "codes_ok d = distinct (map r_code (rooms d))"

text \<open>The player \<open>name\<close> voted, in this room and round, for some spy of the room.\<close>

definition voted_for_spy :: "db \<Rightarrow> string \<Rightarrow> int \<Rightarrow> string \<Rightarrow> bool" where
  "voted_for_spy d rc r name =
     list_ex (\<lambda>v. v_voter_name v = name \<and>
                   list_ex (\<lambda>q. is_spy rc q \<and> p_name q = v_voted_name v) (players d))
       (round_votes d rc r)"

text \<open>The round results of \<open>d'\<close> are those of \<open>d\<close> and one more row, for room and round.\<close>

definition appended_result :: "db \<Rightarrow> db \<Rightarrow> string \<Rightarrow> int \<Rightarrow> bool" where
  "appended_result d d' rc r \<longleftrightarrow>
     round_results d' = round_results d @ [last (round_results d')] \<and>
     rr_room_code (last (round_results d')) = rc \<and> rr_round (last (round_results d')) = r"

text \<open>The players of \<open>d'\<close> are those of \<open>d\<close>, each with the same score or one more.\<close>

definition score_step :: "db \<Rightarrow> db \<Rightarrow> bool" where
  "score_step d d' =
     list_all2 (\<lambda>p p'. p' = p \<or> p' = p\<lparr>p_score := p_score p + 1\<rparr>) (players d) (players d')"

section \<open>Example games\<close>

text \<open>
  A lobby of three, and the commands of a first round in which Bob is made the spy and
  Ann and Cara vote for him.
\<close>

definition lobby_cmds :: "command list" where
  "lobby_cmds =
     [CreateRoom 1 ''Ann'' (\<lambda>_. ''ABCDEF''), JoinRoom ''abcdef'' ''Bob'',
      JoinRoom ''abcdef'' ''Cara'']"

definition round_one_cmds :: "command list" where
  "round_one_cmds =
     lobby_cmds @
     [StartRound ''abcdef'' ''Ann'' [2] None, StartVoting ''abcdef'' ''Ann'',
      Vote ''abcdef'' ''Ann'' ''Bob'' 0, Vote ''abcdef'' ''Bob'' ''Cara'' 0,
      Vote ''abcdef'' ''Cara'' ''Bob'' 0]"

text \<open>A second round after the first: the host starts it and all three vote again.\<close>

definition round_two_cmds :: "command list" where
  "round_two_cmds =
     round_one_cmds @
     [NextRound ''abcdef'' ''Ann'' [3] None, StartVoting ''abcdef'' ''Ann'',
      Vote ''abcdef'' ''Ann'' ''Cara'' 0, Vote ''abcdef'' ''Bob'' ''Cara'' 0,
      Vote ''abcdef'' ''Cara'' ''Ann'' 0]"

text \<open>
  A room of four in the voting phase with two spies, Bob and Cara. Bob has two votes
  and Cara one, from the civilian Dan.
\<close>

definition ex_player :: "nat \<Rightarrow> string \<Rightarrow> bool \<Rightarrow> player" where
  "ex_player i name m =
     \<lparr>p_id = i, p_room_code = ''ABCDEF'', p_name = name, p_is_mafia = Some m,
      p_eliminated = False, p_word = Some (if m then ''banana'' else ''apple''),
      p_score = 0, p_round = 1\<rparr>"

definition ex_vote :: "string \<Rightarrow> string \<Rightarrow> vote_row" where
  "ex_vote voter voted =
     \<lparr>v_room_code = ''ABCDEF'', v_round = 1, v_voter_name = voter, v_voted_name = voted\<rparr>"

definition two_spies :: db where
  "two_spies =
     \<lparr>rooms = [\<lparr>r_code = ''ABCDEF'', r_mafia_count = 2, r_host_name = ''Ann'',
                r_status = ''ongoing'', r_current_phase = Some ''voting''\<rparr>],
      players = [ex_player 1 ''Ann'' False, ex_player 2 ''Bob'' True,
                 ex_player 3 ''Cara'' True, ex_player 4 ''Dan'' False],
      votes = [ex_vote ''Ann'' ''Bob'', ex_vote ''Bob'' ''Ann'', ex_vote ''Cara'' ''Bob'',
               ex_vote ''Dan'' ''Cara''],
      round_results = [], players_id_seq = 5\<rparr>"

text \<open>The same room with one spy, Cara, whom nobody voted for; Bob is voted out.\<close>

definition one_spy :: db where
  "one_spy =
     \<lparr>rooms = [\<lparr>r_code = ''ABCDEF'', r_mafia_count = 1, r_host_name = ''Ann'',
                r_status = ''ongoing'', r_current_phase = Some ''voting''\<rparr>],
      players = [ex_player 1 ''Ann'' False, ex_player 2 ''Bob'' False,
                 ex_player 3 ''Cara'' True],
      votes = [ex_vote ''Ann'' ''Bob'', ex_vote ''Bob'' ''Ann'', ex_vote ''Cara'' ''Bob''],
      round_results = [], players_id_seq = 4\<rparr>"

text \<open>
  The room with one spy and a tie: Ann and Bob, both civilians, have one vote each, and
  the spy Cara has not voted and has no vote.
\<close>

definition tied_votes :: db where
  "tied_votes = one_spy\<lparr>votes := [ex_vote ''Ann'' ''Bob'', ex_vote ''Bob'' ''Ann'']\<rparr>"

text \<open>The largest score the column holds, on the unvoted spy of \<open>one_spy\<close>.\<close>

definition full_score :: db where
  "full_score =
     one_spy\<lparr>players := [ex_player 1 ''Ann'' False, ex_player 2 ''Bob'' False,
                          (ex_player 3 ''Cara'' True)\<lparr>p_score := 2147483647\<rparr>]\<rparr>"

section \<open>Host verification and missing rooms\<close>

lemma upper_ABCDEF: "upper ''ABCDEF'' = ''ABCDEF''"
  by code_simp

lemma upper_abcdef: "upper ''abcdef'' = ''ABCDEF''"
  by code_simp

lemma is_host_iff:
  "is_host d rc name \<longleftrightarrow> (\<exists>room. fetch_room d rc = Some room \<and> r_host_name room = name)"
  by (cases "fetch_room d rc") (auto simp: is_host_def)

lemma not_host_no_room: "fetch_room d rc = None \<Longrightarrow> \<not> is_host d rc name"
  by (simp add: is_host_def)

text \<open>
  Every host-gated handler answers 403 when there is no room with the code: the host
  check comes first, and the 404 of \<^verbatim>\<open>start_round\<close> and \<^verbatim>\<open>start_voting\<close> is never
  reached.
\<close>

lemma no_room_forbidden:
  assumes "fetch_room d (upper rc) = None"
  shows "start_round d rc name ms resp = (Inl (HTTPException 403 ''Only host can start the round''), d)"
    and "start_voting d rc name = (Inl (HTTPException 403 ''Only host can start voting''), d)"
    and "next_round d rc name ms resp = (Inl (HTTPException 403 ''Only host can start next round''), d)"
    and "end_game d rc name = (Inl (HTTPException 403 ''Only host can end the game''), d)"
  using not_host_no_room[OF assms, of name]
  by (simp_all add: start_round_def start_voting_def next_round_def end_game_def Let_def)

lemma never_not_found:
  "\<not> not_found (fst (start_round d rc name ms resp))"
  "\<not> not_found (fst (start_voting d rc name))"
  "\<not> not_found (fst (next_round d rc name ms resp))"
  "\<not> not_found (fst (end_game d rc name))"
  by (auto simp: start_round_def start_voting_def next_round_def end_game_def Let_def
      not_found_def is_host_iff split: option.splits prod.splits)

text \<open>
  C9. Claim: a transition command (start-round, start-voting, next-round, end-game) on
  a room code that no room has fails with NotFound. The handlers answer 403 there: in
  the empty database each of the four commands on the code ZZZZZZ is Forbidden, none is
  NotFound, and the database stays as it was.
\<close>

theorem missing_room_answers_forbidden:
  "handle empty_db (StartRound ''ZZZZZZ'' ''Ann'' [] None) =
     (Inl (HTTPException 403 ''Only host can start the round''), empty_db) \<and>
   handle empty_db (StartVoting ''ZZZZZZ'' ''Ann'') =
     (Inl (HTTPException 403 ''Only host can start voting''), empty_db) \<and>
   handle empty_db (NextRound ''ZZZZZZ'' ''Ann'' [] None) =
     (Inl (HTTPException 403 ''Only host can start next round''), empty_db) \<and>
   handle empty_db (EndGame ''ZZZZZZ'' ''Ann'') =
     (Inl (HTTPException 403 ''Only host can end the game''), empty_db) \<and>
   \<not> not_found (fst (handle empty_db (StartRound ''ZZZZZZ'' ''Ann'' [] None)))"
proof -
  have "fetch_room empty_db (upper ''ZZZZZZ'') = None"
    by (simp add: fetch_room_def empty_db_def)
  from no_room_forbidden[OF this] show ?thesis
    by (simp add: not_found_def)
qed

text \<open>
  C8, as the code has it. For start-round, start-voting, next-round and end-game on an
  existing room, a caller whose name is not the room's host name gets 403 and the
  database is unchanged. (End-round carries no caller name and makes no host check.)
\<close>

theorem host_gated_commands_forbidden:
  assumes "fetch_room d (upper rc) = Some room" and "name \<noteq> r_host_name room"
  shows "forbidden (fst (start_round d rc name ms resp)) \<and> snd (start_round d rc name ms resp) = d \<and>
         forbidden (fst (start_voting d rc name)) \<and> snd (start_voting d rc name) = d \<and>
         forbidden (fst (next_round d rc name ms resp)) \<and> snd (next_round d rc name ms resp) = d \<and>
         forbidden (fst (end_game d rc name)) \<and> snd (end_game d rc name) = d"
proof -
  from assms have "\<not> is_host d (upper rc) name"
    by (auto simp: is_host_iff)
  then show ?thesis
    by (simp add: start_round_def start_voting_def next_round_def end_game_def Let_def
        forbidden_def)
qed

theorem host_gated_commands_forbidden_witness:
  "forbidden (fst (start_round two_spies ''abcdef'' ''Bob'' [1, 4] None)) \<and>
   snd (start_round two_spies ''abcdef'' ''Bob'' [1, 4] None) = two_spies \<and>
   forbidden (fst (start_voting two_spies ''abcdef'' ''Bob'')) \<and>
   snd (start_voting two_spies ''abcdef'' ''Bob'') = two_spies \<and>
   forbidden (fst (next_round two_spies ''abcdef'' ''Bob'' [1, 4] None)) \<and>
   snd (next_round two_spies ''abcdef'' ''Bob'' [1, 4] None) = two_spies \<and>
   forbidden (fst (end_game two_spies ''abcdef'' ''Bob'')) \<and>
   snd (end_game two_spies ''abcdef'' ''Bob'') = two_spies"
proof -
  have room: "fetch_room two_spies (upper ''abcdef'') =
      Some \<lparr>r_code = ''ABCDEF'', r_mafia_count = 2, r_host_name = ''Ann'',
            r_status = ''ongoing'', r_current_phase = Some ''voting''\<rparr>"
    by (simp add: upper_abcdef fetch_room_def two_spies_def)
  have other: "''Bob'' \<noteq> r_host_name \<lparr>r_code = ''ABCDEF'', r_mafia_count = 2,
      r_host_name = ''Ann'', r_status = ''ongoing'', r_current_phase = Some ''voting''\<rparr>"
    by simp
  show ?thesis
    by (rule host_gated_commands_forbidden[OF room other])
qed

text \<open>
  C8, as the claim states it, fails for end-round: on the room of \<open>two_spies\<close>, whose
  host is Ann, the end-round command is not refused, whoever sends it, and it changes
  the players' scores, the round results and the room.
\<close>

theorem end_round_not_host_gated:
  "top_voted two_spies ''ABCDEF'' 1 = [''Bob''] \<and>
   \<not> forbidden (fst (handle two_spies (EndRound ''abcdef'' 0))) \<and>
   fst (handle two_spies (EndRound ''abcdef'' 0)) = Inr (Eliminated ''Bob'') \<and>
   snd (handle two_spies (EndRound ''abcdef'' 0)) \<noteq> two_spies"
  by code_simp

section \<open>Role assignment\<close>

lemma pick_words_fallback:
  "pick_words None = (''apple'', ''banana'')"
  "pick_words (Some []) = (''apple'', ''banana'')"
  "pick_words (Some [w]) = (''apple'', ''banana'')"
  "pick_words (Some (w0 # w1 # ws)) = (w0, w1)"
  by (simp_all add: pick_words_def)

text \<open>The loop of single-row updates amounts to one update of the selected rows.\<close>

lemma fold_update_role:
  "fold (update_role ms cw sw n) pids d =
     d\<lparr>players := map (\<lambda>p. if p_id p \<in> set pids
                              then with_role (p_id p \<in> set ms) (if p_id p \<in> set ms then sw else cw) n p
                              else p) (players d)\<rparr>"
proof (induction pids arbitrary: d)
  case Nil
  show ?case by simp
next
  case (Cons x xs)
  have "fold (update_role ms cw sw n) (x # xs) d =
        fold (update_role ms cw sw n) xs (update_role ms cw sw n x d)"
    by simp
  also have "\<dots> = d\<lparr>players := map (\<lambda>p. if p_id p \<in> set (x # xs)
                              then with_role (p_id p \<in> set ms) (if p_id p \<in> set ms then sw else cw) n p
                              else p) (players d)\<rparr>"
    unfolding Cons.IH by (auto simp: update_role_def with_role_def Let_def)
  finally show ?case .
qed

lemma assign_words_and_roles_eq:
  "assign_words_and_roles d pids ms n resp =
     (pick_words resp,
      d\<lparr>players := map (\<lambda>p. if p_id p \<in> set pids
                               then with_role (p_id p \<in> set ms)
                                      (if p_id p \<in> set ms then snd (pick_words resp)
                                       else fst (pick_words resp)) n p
                               else p) (players d)\<rparr>)"
  by (simp add: assign_words_and_roles_def fold_update_role split: prod.splits)

lemma length_filter_sample:
  assumes "distinct (map f ps)" and "distinct ms" and "set ms \<subseteq> f ` set ps"
  shows "length (filter (\<lambda>p. f p \<in> set ms) ps) = length ms"
proof -
  let ?sel = "filter (\<lambda>i. i \<in> set ms) (map f ps)"
  have "distinct ?sel"
    using assms(1) by simp
  then have "length ?sel = card (set ?sel)"
    by (rule distinct_card[symmetric])
  moreover have "set ?sel = set ms"
    using assms(3) by auto
  moreover have "card (set ms) = length ms"
    using assms(2) by (rule distinct_card)
  moreover have "length (filter (\<lambda>p. f p \<in> set ms) ps) = length ?sel"
    by (simp add: filter_map comp_def)
  ultimately show ?thesis by simp
qed

lemma room_players_assign:
  "room_players (d\<lparr>players := map (\<lambda>p. if p_id p \<in> set (room_player_ids d rc)
                                         then with_role (g p) (h p) n p else p) (players d)\<rparr>) rc =
     map (\<lambda>p. with_role (g p) (h p) n p) (room_players d rc)"
proof -
  have "filter (\<lambda>p. p_room_code p = rc)
          (map (\<lambda>p. if p_id p \<in> set (map p_id (filter (\<lambda>p. p_room_code p = rc) ps'))
                    then with_role (g p) (h p) n p else p) ps) =
        map (\<lambda>p. with_role (g p) (h p) n p) (filter (\<lambda>p. p_room_code p = rc) ps)"
    if "set ps \<subseteq> set ps'" for ps ps'
    using that by (induction ps) (auto simp: with_role_def)
  from this[of "players d" "players d"] show ?thesis
    by (simp add: room_players_def room_player_ids_def)
qed

lemma filter_map_unchanged:
  assumes "\<And>p. p \<in> set ps \<Longrightarrow> P (g p) = P p"
      and "\<And>p. p \<in> set ps \<Longrightarrow> P p \<Longrightarrow> g p = p"
  shows "filter P (map g ps) = filter P ps"
  using assms by (induction ps) auto

lemma other_players_assign:
  assumes "distinct (map p_id (players d))"
  shows "filter (\<lambda>p. p_room_code p \<noteq> rc)
           (map (\<lambda>p. if p_id p \<in> set (room_player_ids d rc)
                     then with_role (g p) (h p) n p else p) (players d)) =
         filter (\<lambda>p. p_room_code p \<noteq> rc) (players d)"
proof (rule filter_map_unchanged)
  fix p assume "p \<in> set (players d)"
  show "(p_room_code (if p_id p \<in> set (room_player_ids d rc)
                     then with_role (g p) (h p) n p else p) \<noteq> rc) = (p_room_code p \<noteq> rc)"
    by (simp add: with_role_def)
next
  fix p assume p: "p \<in> set (players d)" "p_room_code p \<noteq> rc"
  have "p_id p \<notin> set (room_player_ids d rc)"
  proof
    assume "p_id p \<in> set (room_player_ids d rc)"
    then obtain q where q: "q \<in> set (players d)" "p_room_code q = rc" "p_id q = p_id p"
      by (auto simp: room_player_ids_def room_players_def)
    with assms p(1) have "q = p"
      by (meson distinct_map inj_onD)
    with q p(2) show False by simp
  qed
  then show "(if p_id p \<in> set (room_player_ids d rc)
              then with_role (g p) (h p) n p else p) = p"
    by simp
qed

text \<open>
  C7. Claim: for a room with \<open>n\<close> players and \<open>mafiaCount \<le> n\<close>, after role assignment
  exactly \<open>mafiaCount\<close> players of the room are marked spies, every spy has the spy word
  and every other player the civilian word, and every player has the round number of
  the assignment and is not eliminated. Here \<open>mafia_ids\<close> is any outcome of
  \<^verbatim>\<open>random.sample\<close> of size \<open>k\<close> on the ids of the room, as both callers pass it;
  players of other rooms keep their rows.
\<close>

theorem role_assignment_marks_sample:
  assumes ids: "distinct (map p_id (players d))"
      and sample: "is_sample (room_player_ids d rc) k mafia_ids"
      and res: "assign_words_and_roles d (room_player_ids d rc) mafia_ids n resp = ((cw, sw), d')"
  shows "int (length (filter (is_spy rc) (players d'))) = k \<and>
         list_all (\<lambda>p. p_is_mafia p \<noteq> None \<and> p_word p = Some (if is_spy rc p then sw else cw) \<and>
                        p_round p = n \<and> \<not> p_eliminated p) (room_players d' rc) \<and>
         map p_id (room_players d' rc) = room_player_ids d rc \<and>
         filter (\<lambda>p. p_room_code p \<noteq> rc) (players d') =
           filter (\<lambda>p. p_room_code p \<noteq> rc) (players d)"
proof -
  let ?g = "\<lambda>p. p_id p \<in> set mafia_ids"
  let ?h = "\<lambda>p. if p_id p \<in> set mafia_ids then sw else cw"
  from res have words: "pick_words resp = (cw, sw)"
    and d': "d' = d\<lparr>players := map (\<lambda>p. if p_id p \<in> set (room_player_ids d rc)
                                        then with_role (?g p) (?h p) n p else p) (players d)\<rparr>"
    by (auto simp: assign_words_and_roles_eq)
  have room: "room_players d' rc = map (\<lambda>p. with_role (?g p) (?h p) n p) (room_players d rc)"
    unfolding d' by (rule room_players_assign)
  have "filter (is_spy rc) (players d') = filter (\<lambda>p. p_is_mafia p = Some True) (room_players d' rc)"
    by (simp add: room_players_def is_spy_def[abs_def] conj_commute)
  also have "length \<dots> = length (filter ?g (room_players d rc))"
    unfolding room by (simp add: filter_map comp_def with_role_def)
  also have "\<dots> = length mafia_ids"
  proof (rule length_filter_sample)
    show "distinct (map p_id (room_players d rc))"
      using ids by (simp add: room_players_def distinct_map_filter)
    show "distinct mafia_ids"
      using sample by (simp add: is_sample_def)
    show "set mafia_ids \<subseteq> p_id ` set (room_players d rc)"
      using sample by (simp add: is_sample_def room_player_ids_def)
  qed
  finally have count: "int (length (filter (is_spy rc) (players d'))) = k"
    using sample by (simp add: is_sample_def)
  have rows: "list_all (\<lambda>p. p_is_mafia p \<noteq> None \<and> p_word p = Some (if is_spy rc p then sw else cw) \<and>
                        p_round p = n \<and> \<not> p_eliminated p) (room_players d' rc)"
    unfolding room by (auto simp: list_all_iff with_role_def is_spy_def room_players_def)
  have same_ids: "map p_id (room_players d' rc) = room_player_ids d rc"
    unfolding room by (simp add: room_player_ids_def with_role_def comp_def)
  have others: "filter (\<lambda>p. p_room_code p \<noteq> rc) (players d') =
      filter (\<lambda>p. p_room_code p \<noteq> rc) (players d)"
    unfolding d' using other_players_assign[OF ids] by simp
  from count rows same_ids others show ?thesis by simp
qed

theorem role_assignment_marks_sample_witness:
  "distinct (map p_id (players one_spy)) \<and>
   is_sample (room_player_ids one_spy ''ABCDEF'') 1 [2] \<and>
   int (length (filter (is_spy ''ABCDEF'')
     (players (snd (assign_words_and_roles one_spy [1, 2, 3] [2] 7 None))))) = 1 \<and>
   map (\<lambda>p. (p_name p, p_is_mafia p, p_word p, p_round p))
     (players (snd (assign_words_and_roles one_spy [1, 2, 3] [2] 7 None))) =
     [(''Ann'', Some False, Some ''apple'', 7), (''Bob'', Some True, Some ''banana'', 7),
      (''Cara'', Some False, Some ''apple'', 7)]"
proof -
  have ids: "distinct (map p_id (players one_spy))"
    by code_simp
  have pids: "room_player_ids one_spy ''ABCDEF'' = [1, 2, 3]"
    by code_simp
  have sample: "is_sample (room_player_ids one_spy ''ABCDEF'') 1 [2]"
    by code_simp
  have res: "assign_words_and_roles one_spy (room_player_ids one_spy ''ABCDEF'') [2] 7 None =
      ((''apple'', ''banana''), snd (assign_words_and_roles one_spy [1, 2, 3] [2] 7 None))"
    by (simp add: pids assign_words_and_roles_eq pick_words_fallback)
  have rows: "map (\<lambda>p. (p_name p, p_is_mafia p, p_word p, p_round p))
     (players (snd (assign_words_and_roles one_spy [1, 2, 3] [2] 7 None))) =
     [(''Ann'', Some False, Some ''apple'', 7), (''Bob'', Some True, Some ''banana'', 7),
      (''Cara'', Some False, Some ''apple'', 7)]"
    by code_simp
  from role_assignment_marks_sample[OF ids sample res] ids sample rows
  show ?thesis by simp
qed

text \<open>Both callers pass the ids of the room and keep the players the assignment wrote.\<close>

lemma start_round_players:
  assumes "fst (start_round d room_code name ms resp) = Inr RoundStarted"
  shows "players (snd (start_round d room_code name ms resp)) =
         players (snd (assign_words_and_roles d (room_player_ids d (upper room_code)) ms 1 resp))"
  using assms
  by (auto simp: start_round_def Let_def set_ongoing_def split: if_splits option.splits prod.splits)

lemma next_round_players:
  assumes "fst (next_round d room_code name ms resp) = Inr (NextRoundStarted n cw sw)"
  shows "players (snd (next_round d room_code name ms resp)) =
         players (snd (assign_words_and_roles d (room_player_ids d (upper room_code)) ms n resp))"
  using assms
  by (auto simp: next_round_def Let_def set_ongoing_def split: if_splits option.splits prod.splits)

text \<open>
  C10. Claim: when the word request fails (an error or a timeout), role assignment takes
  the fixed fallback pair and the round start completes; the failure is not surfaced.
  With a failed request the assignment returns apple and banana and writes, for every
  selected player, banana to the spies and apple to the others, with the round and
  \<^verbatim>\<open>eliminated = FALSE\<close>; both handlers do exactly what they do when the request answers
  with that pair; and where host, room and player count allow a round, they reply with
  success and leave the database with those rows written and the room ongoing in
  discussion (for \<^verbatim>\<open>next_round\<close>, with the votes of the room deleted, and as long as the
  next round number is an INT).
\<close>

theorem word_supply_failure_uses_fallback:
  "assign_words_and_roles d pids ms n None =
     ((''apple'', ''banana''),
      d\<lparr>players := map (\<lambda>p. if p_id p \<in> set pids
                               then with_role (p_id p \<in> set ms)
                                      (if p_id p \<in> set ms then ''banana'' else ''apple'') n p
                               else p) (players d)\<rparr>) \<and>
   start_round d rc name ms None = start_round d rc name ms (Some [''apple'', ''banana'']) \<and>
   next_round d rc name ms None = next_round d rc name ms (Some [''apple'', ''banana'']) \<and>
   (is_host d (upper rc) name \<longrightarrow> fetch_room d (upper rc) = Some room \<longrightarrow>
    0 \<le> r_mafia_count room \<longrightarrow> r_mafia_count room \<le> int (length (room_player_ids d (upper rc))) \<longrightarrow>
      start_round d rc name ms None =
        (Inr RoundStarted,
         set_ongoing
           (d\<lparr>players := map (\<lambda>p. if p_id p \<in> set (room_player_ids d (upper rc))
                                    then with_role (p_id p \<in> set ms)
                                           (if p_id p \<in> set ms then ''banana'' else ''apple'') 1 p
                                    else p) (players d)\<rparr>)
           (upper rc)) \<and>
      (m = (case max_round d (upper rc) of None \<Rightarrow> 0 | Some x \<Rightarrow> x) + 1 \<longrightarrow> m \<le> int4_max \<longrightarrow>
         next_round d rc name ms None =
           (Inr (NextRoundStarted m ''apple'' ''banana''),
            (set_ongoing
               (d\<lparr>players := map (\<lambda>p. if p_id p \<in> set (room_player_ids d (upper rc))
                                        then with_role (p_id p \<in> set ms)
                                               (if p_id p \<in> set ms then ''banana'' else ''apple'') m p
                                        else p) (players d)\<rparr>)
               (upper rc))
              \<lparr>votes := filter (\<lambda>v. v_room_code v \<noteq> upper rc) (votes d)\<rparr>)))"
proof -
  have same: "assign_words_and_roles d' pids' ms n' None =
      assign_words_and_roles d' pids' ms n' (Some [''apple'', ''banana''])" for d' pids' n'
    by (simp add: assign_words_and_roles_def pick_words_def)
  have written: "assign_words_and_roles d' pids' ms n' None =
     ((''apple'', ''banana''),
      d'\<lparr>players := map (\<lambda>p. if p_id p \<in> set pids'
                               then with_role (p_id p \<in> set ms)
                                      (if p_id p \<in> set ms then ''banana'' else ''apple'') n' p
                               else p) (players d')\<rparr>)" for d' pids' n'
    by (simp add: assign_words_and_roles_eq pick_words_fallback)
  have start: "start_round d rc name ms None = start_round d rc name ms (Some [''apple'', ''banana''])"
    unfolding start_round_def same ..
  have nxt: "next_round d rc name ms None = next_round d rc name ms (Some [''apple'', ''banana''])"
    unfolding next_round_def same ..
  have ok: "start_round d rc name ms None =
        (Inr RoundStarted,
         set_ongoing
           (d\<lparr>players := map (\<lambda>p. if p_id p \<in> set (room_player_ids d (upper rc))
                                    then with_role (p_id p \<in> set ms)
                                           (if p_id p \<in> set ms then ''banana'' else ''apple'') 1 p
                                    else p) (players d)\<rparr>)
           (upper rc)) \<and>
      (m = (case max_round d (upper rc) of None \<Rightarrow> 0 | Some x \<Rightarrow> x) + 1 \<longrightarrow> m \<le> int4_max \<longrightarrow>
         next_round d rc name ms None =
           (Inr (NextRoundStarted m ''apple'' ''banana''),
            (set_ongoing
               (d\<lparr>players := map (\<lambda>p. if p_id p \<in> set (room_player_ids d (upper rc))
                                        then with_role (p_id p \<in> set ms)
                                               (if p_id p \<in> set ms then ''banana'' else ''apple'') m p
                                        else p) (players d)\<rparr>)
               (upper rc))
              \<lparr>votes := filter (\<lambda>v. v_room_code v \<noteq> upper rc) (votes d)\<rparr>))"
    if "is_host d (upper rc) name" "fetch_room d (upper rc) = Some room"
       "0 \<le> r_mafia_count room" "r_mafia_count room \<le> int (length (room_player_ids d (upper rc)))"
    using that
    by (simp add: start_round_def next_round_def Let_def written set_ongoing_def)
  from written[of d pids n] start nxt ok show ?thesis by blast
qed

text \<open>
  In the lobby nobody has a word yet. The host starts the round, the word request
  fails, and every player is given apple or banana.
\<close>

theorem word_supply_failure_uses_fallback_witness:
  "map p_word (players (run empty_db lobby_cmds)) = [None, None, None] \<and>
   fst (start_round (run empty_db lobby_cmds) ''abcdef'' ''Ann'' [2] None) = Inr RoundStarted \<and>
   map (\<lambda>p. (p_name p, p_is_mafia p, p_word p, p_round p))
     (players (snd (start_round (run empty_db lobby_cmds) ''abcdef'' ''Ann'' [2] None))) =
     [(''Ann'', Some False, Some ''apple'', 1), (''Bob'', Some True, Some ''banana'', 1),
      (''Cara'', Some False, Some ''apple'', 1)] \<and>
   map (\<lambda>r. (r_status r, r_current_phase r))
     (rooms (snd (start_round (run empty_db lobby_cmds) ''abcdef'' ''Ann'' [2] None))) =
     [(''ongoing'', Some ''discussion'')]"
proof -
  let ?d = "run empty_db lobby_cmds"
  let ?room = "\<lparr>r_code = ''ABCDEF'', r_mafia_count = 1, r_host_name = ''Ann'',
                r_status = ''waiting'', r_current_phase = None\<rparr>"
  let ?after = "set_ongoing
     (?d\<lparr>players := map (\<lambda>p. if p_id p \<in> set (room_player_ids ?d (upper ''abcdef''))
                               then with_role (p_id p \<in> set [2])
                                      (if p_id p \<in> set [2] then ''banana'' else ''apple'') 1 p
                               else p) (players ?d)\<rparr>)
     (upper ''abcdef'')"
  have before: "map p_word (players ?d) = [None, None, None]"
    by code_simp
  have room: "fetch_room ?d (upper ''abcdef'') = Some ?room"
    by code_simp
  have host: "is_host ?d (upper ''abcdef'') ''Ann''"
    by code_simp
  have enough: "r_mafia_count ?room \<le> int (length (room_player_ids ?d (upper ''abcdef'')))"
    by code_simp
  have nonneg: "0 \<le> r_mafia_count ?room"
    by simp
  have rows: "map (\<lambda>p. (p_name p, p_is_mafia p, p_word p, p_round p)) (players ?after) =
     [(''Ann'', Some False, Some ''apple'', 1), (''Bob'', Some True, Some ''banana'', 1),
      (''Cara'', Some False, Some ''apple'', 1)]"
    by code_simp
  have status: "map (\<lambda>r. (r_status r, r_current_phase r)) (rooms ?after) =
     [(''ongoing'', Some ''discussion'')]"
    by code_simp
  from word_supply_failure_uses_fallback[of ?d "[]" "[2]" 1 "''abcdef''" "''Ann''" ?room 1]
    host room enough nonneg
  have "start_round ?d ''abcdef'' ''Ann'' [2] None = (Inr RoundStarted, ?after)"
    by blast
  with before rows status show ?thesis
    by simp
qed

section \<open>What the statements leave alone\<close>

lemma set_ended_simps:
  "rooms (set_ended d rc) =
     map (\<lambda>r. if r_code r = rc then r\<lparr>r_status := ''ended''\<rparr> else r) (rooms d)"
  "players (set_ended d rc) = players d"
  "votes (set_ended d rc) = votes d"
  "round_results (set_ended d rc) = round_results d"
  "players_id_seq (set_ended d rc) = players_id_seq d"
  by (simp_all add: set_ended_def)

lemma set_ongoing_simps:
  "rooms (set_ongoing d rc) =
     map (\<lambda>r. if r_code r = rc
               then r\<lparr>r_status := ''ongoing'', r_current_phase := Some ''discussion''\<rparr> else r) (rooms d)"
  "players (set_ongoing d rc) = players d"
  "votes (set_ongoing d rc) = votes d"
  "round_results (set_ongoing d rc) = round_results d"
  "players_id_seq (set_ongoing d rc) = players_id_seq d"
  by (simp_all add: set_ongoing_def)

lemma insert_round_result_simps:
  "rooms (insert_round_result d rc r en wm) = rooms d"
  "players (insert_round_result d rc r en wm) = players d"
  "votes (insert_round_result d rc r en wm) = votes d"
  "round_results (insert_round_result d rc r en wm) = round_results d @
     [\<lparr>rr_room_code = rc, rr_round = r, rr_eliminated_player = en, rr_was_mafia = wm\<rparr>]"
  "players_id_seq (insert_round_result d rc r en wm) = players_id_seq d"
  by (simp_all add: insert_round_result_def)

lemma raise_scores_simps:
  "rooms (raise_scores d P) = rooms d"
  "players (raise_scores d P) =
     map (\<lambda>p. if P p then p\<lparr>p_score := p_score p + 1\<rparr> else p) (players d)"
  "votes (raise_scores d P) = votes d"
  "round_results (raise_scores d P) = round_results d"
  "players_id_seq (raise_scores d P) = players_id_seq d"
  by (simp_all add: raise_scores_def)

lemma bump_scores_cases:
  obtains (overflow) "list_ex (\<lambda>p. P p \<and> int4_max \<le> p_score p) (players d)"
      and "bump_scores d P = Inl (Unhandled ''NumericValueOutOfRangeError'')"
  | (written) "\<not> list_ex (\<lambda>p. P p \<and> int4_max \<le> p_score p) (players d)"
      and "bump_scores d P = Inr (raise_scores d P)"
  by (cases "list_ex (\<lambda>p. P p \<and> int4_max \<le> p_score p) (players d)")
     (simp_all add: bump_scores_def)

lemma bump_scores_Inr:
  "bump_scores d P = Inr d1 \<Longrightarrow> d1 = raise_scores d P"
  by (cases rule: bump_scores_cases[of P d]) simp_all

lemma upsert_vote_simps:
  "rooms (upsert_vote d rc r voter voted) = rooms d"
  "players (upsert_vote d rc r voter voted) = players d"
  "round_results (upsert_vote d rc r voter voted) = round_results d"
  "players_id_seq (upsert_vote d rc r voter voted) = players_id_seq d"
  by (simp_all add: upsert_vote_def)

lemma assign_simps:
  "rooms (snd (assign_words_and_roles d pids ms n resp)) = rooms d"
  "votes (snd (assign_words_and_roles d pids ms n resp)) = votes d"
  "round_results (snd (assign_words_and_roles d pids ms n resp)) = round_results d"
  "players_id_seq (snd (assign_words_and_roles d pids ms n resp)) = players_id_seq d"
  "map p_id (players (snd (assign_words_and_roles d pids ms n resp))) = map p_id (players d)"
  by (simp_all add: assign_words_and_roles_eq with_role_def comp_def)

text \<open>
  A resolution, on either path, is one scoring update, one inserted round result and
  the status update; \<open>resolved\<close> names the database it leaves.
\<close>

lemma process_round_results_Inr:
  assumes "process_round_results d rc r k = Inr d'"
  obtains en e P where "vote_result d rc r k = Some en" and "fetch_player d rc en = Some e"
    and "P = (if p_is_mafia e = Some True then civilian_spy_voter d rc r else unvoted_spy d rc r)"
    and "bump_scores d P = Inr (raise_scores d P)"
    and "d' = resolved (raise_scores d P) rc r en (p_is_mafia e)"
proof -
  from assms obtain en e d1 where top: "vote_result d rc r k = Some en"
    and row: "fetch_player d rc en = Some e"
    and sc: "(if p_is_mafia e = Some True then bump_scores d (civilian_spy_voter d rc r)
              else award_unvoted_spies d rc r) = Inr d1"
    and d': "d' = resolved d1 rc r en (p_is_mafia e)"
    by (auto simp: process_round_results_def resolved_def Let_def split: option.splits sum.splits)
  let ?P = "if p_is_mafia e = Some True then civilian_spy_voter d rc r else unvoted_spy d rc r"
  from sc have "bump_scores d ?P = Inr d1"
    by (simp add: award_unvoted_spies_def split: if_splits)
  with bump_scores_Inr[of d ?P d1] have "bump_scores d ?P = Inr (raise_scores d ?P)"
    and "d1 = raise_scores d ?P"
    by simp_all
  with top row d' show thesis
    by (intro that[of en e ?P]) simp_all
qed

lemma end_round_cases:
  obtains (failed) e where "end_round d room_code k = (Inl e, d)"
  | (resolved) en e P where
      "vote_result d (upper room_code) (current_round d (upper room_code)) k = Some en"
      and "fetch_player d (upper room_code) en = Some e"
      and "P = (if p_is_mafia e = Some True
                then civilian_correct_voter d (upper room_code) (current_round d (upper room_code)) en
                else unvoted_spy d (upper room_code) (current_round d (upper room_code)))"
      and "bump_scores d P = Inr (raise_scores d P)"
      and "end_round d room_code k =
           (Inr (Eliminated en),
            resolved (raise_scores d P) (upper room_code) (current_round d (upper room_code)) en
              (p_is_mafia e))"
proof -
  let ?rc = "upper room_code"
  let ?r = "current_round d ?rc"
  show thesis
  proof (cases "vote_result d ?rc ?r k")
    case None
    then have "end_round d room_code k = (Inl (HTTPException 400 ''No votes cast''), d)"
      by (simp add: end_round_def Let_def)
    then show thesis by (rule failed)
  next
    case (Some en)
    show thesis
    proof (cases "fetch_player d ?rc en")
      case None
      with Some have "end_round d room_code k =
          (Inl (HTTPException 404 ''Eliminated player not found''), d)"
        by (simp add: end_round_def Let_def)
      then show thesis by (rule failed)
    next
      case row: (Some e)
      let ?P = "if p_is_mafia e = Some True then civilian_correct_voter d ?rc ?r en
                else unvoted_spy d ?rc ?r"
      have sc: "(if p_is_mafia e = Some True then bump_scores d (civilian_correct_voter d ?rc ?r en)
                 else award_unvoted_spies d ?rc ?r) = bump_scores d ?P"
        by (simp add: award_unvoted_spies_def)
      show thesis
      proof (cases rule: bump_scores_cases[of ?P d])
        case overflow
        with Some row sc have "end_round d room_code k =
            (Inl (Unhandled ''NumericValueOutOfRangeError''), d)"
          by (simp add: end_round_def Let_def)
        then show thesis by (rule failed)
      next
        case written
        with Some row sc have "end_round d room_code k =
            (Inr (Eliminated en), resolved (raise_scores d ?P) ?rc ?r en (p_is_mafia e))"
          by (simp add: end_round_def resolved_def Let_def)
        with Some row written(2) show thesis
          by (intro resolved[of en e ?P]) simp_all
      qed
    qed
  qed
qed

lemma resolved_simps:
  "rooms (resolved d1 rc r en wm) =
     map (\<lambda>x. if r_code x = rc then x\<lparr>r_status := ''ended''\<rparr> else x) (rooms d1)"
  "players (resolved d1 rc r en wm) = players d1"
  "votes (resolved d1 rc r en wm) = votes d1"
  "round_results (resolved d1 rc r en wm) = round_results d1 @
     [\<lparr>rr_room_code = rc, rr_round = r, rr_eliminated_player = en, rr_was_mafia = wm\<rparr>]"
  "players_id_seq (resolved d1 rc r en wm) = players_id_seq d1"
  by (simp_all add: resolved_def set_ended_simps insert_round_result_simps)

section \<open>Status and phase\<close>

lemma phase_ok_ended: "phase_ok (r\<lparr>r_status := ''ended''\<rparr>)"
  by (simp add: phase_ok_def)

lemma phase_ok_ongoing:
  "phase_ok (r\<lparr>r_status := ''ongoing'', r_current_phase := Some ''discussion''\<rparr>)"
  by (simp add: phase_ok_def)

lemma phase_ok_new_room: "phase_ok (new_room c mc name)"
  by (simp add: phase_ok_def new_room_def)

lemma r_code_new_room: "r_code (new_room c mc name) = c"
  by (simp add: new_room_def)

lemma phases_ok_resolved:
  assumes "phases_ok d" and "rooms d1 = rooms d"
  shows "phases_ok (resolved d1 rc r en wm)"
  using assms by (auto simp: phases_ok_def resolved_simps list_all_iff phase_ok_ended)

lemma codes_ok_resolved:
  assumes "codes_ok d" and "rooms d1 = rooms d"
  shows "codes_ok (resolved d1 rc r en wm)"
proof -
  have "map r_code (rooms (resolved d1 rc r en wm)) = map r_code (rooms d)"
    by (simp add: resolved_simps assms(2) comp_def if_distrib cong: if_cong)
  with assms(1) show ?thesis by (simp add: codes_ok_def)
qed

lemma phases_ok_set_ongoing:
  assumes "phases_ok d" and "rooms d1 = rooms d"
  shows "phases_ok (set_ongoing d1 rc)"
  using assms by (auto simp: phases_ok_def set_ongoing_simps list_all_iff phase_ok_ongoing)

lemma codes_ok_set_ongoing:
  assumes "codes_ok d" and "rooms d1 = rooms d"
  shows "codes_ok (set_ongoing d1 rc)"
proof -
  have "map r_code (rooms (set_ongoing d1 rc)) = map r_code (rooms d)"
    by (simp add: set_ongoing_simps assms(2) comp_def if_distrib cong: if_cong)
  with assms(1) show ?thesis by (simp add: codes_ok_def)
qed

text \<open>With unique codes the row the lookup returns is the only row of that code.\<close>

lemma fetch_room_unique:
  assumes "codes_ok d" and "fetch_room d rc = Some room" and "x \<in> set (rooms d)" and "r_code x = rc"
  shows "x = room"
proof -
  from assms(2) have "room \<in> set (rooms d)" and "r_code room = rc"
    by (auto simp: fetch_room_def find_Some_iff)
  with assms(1,3,4) show ?thesis
    by (metis codes_ok_def distinct_map inj_onD)
qed

lemma fetch_room_None_iff: "fetch_room d rc = None \<longleftrightarrow> rc \<notin> r_code ` set (rooms d)"
  by (auto simp: fetch_room_def find_None_iff)

lemma generate_unique_room_code_fresh:
  assumes "generate_unique_room_code d draws = Some c"
  shows "c \<notin> r_code ` set (rooms d)"
proof -
  from assms have "fetch_room d c = None"
    by (auto simp: generate_unique_room_code_def find_Some_iff)
  then show ?thesis by (simp add: fetch_room_None_iff)
qed

lemma create_room_rooms:
  "rooms (snd (create_room d mc name draws)) = rooms d \<or>
   (\<exists>c. generate_unique_room_code d draws = Some c \<and>
        rooms (snd (create_room d mc name draws)) = rooms d @ [new_room c mc name])"
  by (auto simp: create_room_def insert_player_def skip_player_id_def split: option.splits)

lemma create_room_phases:
  assumes "codes_ok d" and "phases_ok d"
  shows "codes_ok (snd (create_room d mc name draws)) \<and> phases_ok (snd (create_room d mc name draws))"
proof -
  from create_room_rooms[of d mc name draws] show ?thesis
  proof
    assume "rooms (snd (create_room d mc name draws)) = rooms d"
    with assms show ?thesis by (simp add: codes_ok_def phases_ok_def)
  next
    assume "\<exists>c. generate_unique_room_code d draws = Some c \<and>
        rooms (snd (create_room d mc name draws)) = rooms d @ [new_room c mc name]"
    then obtain c where c: "generate_unique_room_code d draws = Some c"
      and rs: "rooms (snd (create_room d mc name draws)) = rooms d @ [new_room c mc name]"
      by blast
    from generate_unique_room_code_fresh[OF c] assms show ?thesis
      by (simp add: codes_ok_def phases_ok_def rs phase_ok_new_room r_code_new_room)
  qed
qed

lemma join_room_rooms: "rooms (snd (join_room d rc name)) = rooms d"
  by (simp add: join_room_def Let_def insert_player_def skip_player_id_def)

lemma start_round_rooms:
  "snd (start_round d rc name ms resp) = d \<or>
   rooms (snd (start_round d rc name ms resp)) = rooms (set_ongoing d (upper rc))"
  by (simp add: start_round_def Let_def assign_words_and_roles_eq set_ongoing_simps
      split: option.splits)

lemma next_round_rooms:
  "snd (next_round d rc name ms resp) = d \<or>
   rooms (snd (next_round d rc name ms resp)) = rooms (set_ongoing d (upper rc))"
  by (simp add: next_round_def Let_def assign_words_and_roles_eq set_ongoing_simps
      case_prod_beta split: option.splits)

lemma start_round_phases:
  assumes "codes_ok d" and "phases_ok d"
  shows "codes_ok (snd (start_round d rc name ms resp)) \<and> phases_ok (snd (start_round d rc name ms resp))"
  using start_round_rooms[of d rc name ms resp] assms
    phases_ok_set_ongoing[of d d "upper rc"] codes_ok_set_ongoing[of d d "upper rc"]
  by (auto simp: codes_ok_def phases_ok_def)

lemma next_round_phases:
  assumes "codes_ok d" and "phases_ok d"
  shows "codes_ok (snd (next_round d rc name ms resp)) \<and> phases_ok (snd (next_round d rc name ms resp))"
  using next_round_rooms[of d rc name ms resp] assms
    phases_ok_set_ongoing[of d d "upper rc"] codes_ok_set_ongoing[of d d "upper rc"]
  by (auto simp: codes_ok_def phases_ok_def)

lemma start_voting_phases:
  assumes "codes_ok d" and "phases_ok d"
  shows "codes_ok (snd (start_voting d rc name)) \<and> phases_ok (snd (start_voting d rc name))"
proof (cases "fst (start_voting d rc name)")
  case (Inl e)
  then have "snd (start_voting d rc name) = d"
    by (auto simp: start_voting_def Let_def split: if_splits option.splits)
  with assms show ?thesis by simp
next
  case (Inr rep)
  then obtain room where room: "fetch_room d (upper rc) = Some room"
      "r_current_phase room = Some ''discussion''"
    and rs: "rooms (snd (start_voting d rc name)) =
      map (\<lambda>r. if r_code r = upper rc then r\<lparr>r_current_phase := Some ''voting''\<rparr> else r) (rooms d)"
    by (auto simp: start_voting_def Let_def split: if_splits option.splits)
  have "map r_code (rooms (snd (start_voting d rc name))) = map r_code (rooms d)"
    by (simp add: rs comp_def if_distrib cong: if_cong)
  with assms(1) have codes: "codes_ok (snd (start_voting d rc name))"
    by (simp add: codes_ok_def)
  have "phase_ok (if r_code x = upper rc then x\<lparr>r_current_phase := Some ''voting''\<rparr> else x)"
    if x: "x \<in> set (rooms d)" for x
  proof (cases "r_code x = upper rc")
    case True
    with fetch_room_unique[OF assms(1) room(1) x] have "x = room" by simp
    moreover from assms(2) x have "phase_ok x"
      by (simp add: phases_ok_def list_all_iff)
    ultimately show ?thesis
      using room(2) True by (auto simp: phase_ok_def)
  next
    case False
    with assms(2) x show ?thesis by (simp add: phases_ok_def list_all_iff)
  qed
  then have "\<forall>x \<in> set (rooms d).
      phase_ok (if r_code x = upper rc then x\<lparr>r_current_phase := Some ''voting''\<rparr> else x)"
    by blast
  then have "phases_ok (snd (start_voting d rc name))"
    by (auto simp: phases_ok_def rs list_all_iff)
  with codes show ?thesis by simp
qed

lemma end_game_phases:
  assumes "codes_ok d" and "phases_ok d"
  shows "codes_ok (snd (end_game d rc name)) \<and> phases_ok (snd (end_game d rc name))"
  using assms
  by (auto simp: end_game_def Let_def codes_ok_def phases_ok_def list_all_iff distinct_map_filter)

lemma vote_cases:
  obtains (failed) e where "vote d room_code voter voted k = (Inl e, d)"
  | (recorded) "vote d room_code voter voted k =
        (Inr (Voted voter voted),
         upsert_vote d (upper room_code) (current_round d (upper room_code)) voter voted)"
  | (quorum) en wm P where "vote d room_code voter voted k =
        (Inr (Voted voter voted),
         resolved (raise_scores
             (upsert_vote d (upper room_code) (current_round d (upper room_code)) voter voted) P)
           (upper room_code) (current_round d (upper room_code)) en wm)"
proof -
  let ?rc = "upper room_code"
  let ?r = "current_round d ?rc"
  let ?d1 = "upsert_vote d ?rc ?r voter voted"
  show thesis
  proof (cases "length (room_players ?d1 ?rc) \<le> distinct_voters ?d1 ?rc ?r")
    case False
    then have "vote d room_code voter voted k = (Inr (Voted voter voted), ?d1)"
      by (simp add: vote_def Let_def)
    then show thesis by (rule recorded)
  next
    case True
    show thesis
    proof (cases "process_round_results ?d1 ?rc ?r k")
      case (Inl e)
      with True have "vote d room_code voter voted k = (Inl e, d)"
        by (simp add: vote_def Let_def)
      then show thesis by (rule failed)
    next
      case (Inr d2)
      with True have v: "vote d room_code voter voted k = (Inr (Voted voter voted), d2)"
        by (simp add: vote_def Let_def)
      from Inr show thesis
      proof (rule process_round_results_Inr)
        fix en e P
        assume "d2 = resolved (raise_scores ?d1 P) ?rc ?r en (p_is_mafia e)"
        with v have "vote d room_code voter voted k =
            (Inr (Voted voter voted), resolved (raise_scores ?d1 P) ?rc ?r en (p_is_mafia e))"
          by simp
        then show thesis by (rule quorum)
      qed
    qed
  qed
qed

lemma vote_phases:
  assumes "codes_ok d" and "phases_ok d"
  shows "codes_ok (snd (vote d rc voter voted k)) \<and> phases_ok (snd (vote d rc voter voted k))"
proof (cases rule: vote_cases[of d rc voter voted k])
  case (failed e)
  with assms show ?thesis by simp
next
  case recorded
  with assms show ?thesis by (simp add: codes_ok_def phases_ok_def upsert_vote_simps)
next
  case (quorum en wm P)
  with assms show ?thesis
    by (simp add: phases_ok_resolved codes_ok_resolved raise_scores_simps upsert_vote_simps)
qed

lemma end_round_phases:
  assumes "codes_ok d" and "phases_ok d"
  shows "codes_ok (snd (end_round d rc k)) \<and> phases_ok (snd (end_round d rc k))"
proof (cases rule: end_round_cases[of d rc k])
  case (failed e)
  with assms show ?thesis by simp
next
  case (resolved en e P)
  with assms show ?thesis
    by (simp add: phases_ok_resolved codes_ok_resolved raise_scores_simps)
qed

lemma handle_phases:
  assumes "codes_ok d" and "phases_ok d"
  shows "codes_ok (snd (handle d c)) \<and> phases_ok (snd (handle d c))"
proof (cases c)
  case (JoinRoom rc name)
  with assms show ?thesis by (simp add: codes_ok_def phases_ok_def join_room_rooms)
qed (use assms in \<open>simp_all add: create_room_phases start_round_phases start_voting_phases
      end_game_phases vote_phases end_round_phases next_round_phases\<close>)

lemma run_phases:
  assumes "codes_ok d" and "phases_ok d"
  shows "codes_ok (run d cs) \<and> phases_ok (run d cs)"
  using assms by (induction cs arbitrary: d) (simp_all add: handle_phases)

lemma empty_db_ok: "codes_ok empty_db" "phases_ok empty_db" "one_vote_per_key empty_db" "ids_ok empty_db"
  by (simp_all add: codes_ok_def phases_ok_def one_vote_per_key_def ids_ok_def empty_db_def)

text \<open>
  C6, as the code has it. In every database the commands can reach, a room whose status
  is ongoing has the phase discussion or voting, and a room whose status is waiting has
  no phase; every command keeps this, given unique room codes. (Nothing is said of an
  ended room: resolution sets the status only.)
\<close>

theorem status_phase_invariant:
  "phases_ok (run empty_db cs) \<and>
   (codes_ok d \<and> phases_ok d \<longrightarrow> codes_ok (snd (handle d c)) \<and> phases_ok (snd (handle d c)))"
  using run_phases[OF empty_db_ok(1,2), of cs] handle_phases[of d c] by blast

theorem status_phase_invariant_witness:
  "phases_ok (run empty_db (lobby_cmds @ [StartRound ''abcdef'' ''Ann'' [2] None])) \<and>
   map (\<lambda>r. (r_status r, r_current_phase r))
     (rooms (run empty_db (lobby_cmds @ [StartRound ''abcdef'' ''Ann'' [2] None]))) =
     [(''ongoing'', Some ''discussion'')] \<and>
   map (\<lambda>r. (r_status r, r_current_phase r)) (rooms (run empty_db lobby_cmds)) =
     [(''waiting'', None)]"
proof -
  have "map (\<lambda>r. (r_status r, r_current_phase r))
     (rooms (run empty_db (lobby_cmds @ [StartRound ''abcdef'' ''Ann'' [2] None]))) =
     [(''ongoing'', Some ''discussion'')]"
    by code_simp
  moreover have "map (\<lambda>r. (r_status r, r_current_phase r)) (rooms (run empty_db lobby_cmds)) =
     [(''waiting'', None)]"
    by code_simp
  ultimately show ?thesis
    using status_phase_invariant[of "lobby_cmds @ [StartRound ''abcdef'' ''Ann'' [2] None]"
        empty_db "EndRound [] 0"]
    by simp
qed

text \<open>
  C6, as the claim states it, fails: after a first round in which the third vote
  completes the quorum, the room is ended and its phase is still voting.
\<close>

theorem ended_room_keeps_phase:
  "map (\<lambda>r. (r_code r, r_status r, r_current_phase r)) (rooms (run empty_db round_one_cmds)) =
     [(''ABCDEF'', ''ended'', Some ''voting'')]"
  by code_simp

section \<open>One vote per voter and round\<close>














section \<open>The tally query\<close>

lemma top_voted_iff:
  "n \<in> set (top_voted d rc r) \<longleftrightarrow>
     n \<in> set (voted_names d rc r) \<and> (\<forall>m. votes_received d rc r m \<le> votes_received d rc r n)"
proof -
  have zero: "votes_received d rc r m = 0" if "m \<notin> set (voted_names d rc r)" for m
    using that by (auto simp: votes_received_def voted_names_def filter_empty_conv)
  have "(\<forall>m \<in> set (voted_names d rc r). votes_received d rc r m \<le> votes_received d rc r n) \<longleftrightarrow>
        (\<forall>m. votes_received d rc r m \<le> votes_received d rc r n)"
    using zero by (metis le0)
  then show ?thesis
    by (auto simp: top_voted_def Let_def list_all_iff)
qed

lemma top_voted_empty_iff: "top_voted d rc r = [] \<longleftrightarrow> round_votes d rc r = []"
proof
  assume "round_votes d rc r = []"
  then show "top_voted d rc r = []"
    by (simp add: top_voted_def voted_names_def)
next
  assume empty: "top_voted d rc r = []"
  show "round_votes d rc r = []"
  proof (rule ccontr)
    assume "round_votes d rc r \<noteq> []"
    then have ne: "set (voted_names d rc r) \<noteq> {}"
      by (simp add: voted_names_def)
    let ?counts = "votes_received d rc r ` set (voted_names d rc r)"
    from ne have "Max ?counts \<in> ?counts"
      by (intro Max_in) simp_all
    then obtain n where n: "n \<in> set (voted_names d rc r)" "votes_received d rc r n = Max ?counts"
      by auto
    have "votes_received d rc r m \<le> votes_received d rc r n" if "m \<in> set (voted_names d rc r)" for m
      using that n(2) by simp
    with n(1) have "n \<in> set (top_voted d rc r)"
      by (auto simp: top_voted_def Let_def list_all_iff)
    with empty show False by simp
  qed
qed

text \<open>
  The query returns no row exactly when the round has no votes; a name it returns has
  the highest count; and every name with the highest count is returned for some choice.
\<close>

lemma vote_result_None_iff: "vote_result d rc r k = None \<longleftrightarrow> round_votes d rc r = []"
  using top_voted_empty_iff[of d rc r]
  by (cases "top_voted d rc r") (simp_all add: vote_result_def)

lemma vote_result_Some:
  assumes "vote_result d rc r k = Some en"
  shows "en \<in> set (top_voted d rc r)"
proof -
  from assms have ne: "top_voted d rc r \<noteq> []"
    and en: "en = top_voted d rc r ! (k mod length (top_voted d rc r))"
    by (auto simp: vote_result_def split: list.splits)
  from ne have "k mod length (top_voted d rc r) < length (top_voted d rc r)"
    by simp
  with en show ?thesis by simp
qed

lemma vote_result_highest:
  assumes "vote_result d rc r k = Some en"
  shows "votes_received d rc r m \<le> votes_received d rc r en"
  using vote_result_Some[OF assms] by (simp add: top_voted_iff)

lemma vote_result_any_top:
  assumes "en \<in> set (top_voted d rc r)"
  shows "\<exists>k. vote_result d rc r k = Some en"
proof -
  from assms obtain i where i: "i < length (top_voted d rc r)" "top_voted d rc r ! i = en"
    by (auto simp: in_set_conv_nth)
  then have "vote_result d rc r i = Some en"
    by (auto simp: vote_result_def split: list.splits)
  then show ?thesis ..
qed

lemma vote_result_single:
  assumes "top_voted d rc r = [n]"
  shows "vote_result d rc r k = Some n"
  using assms by (simp add: vote_result_def)

lemma end_round_single:
  assumes "top_voted d (upper rc) (current_round d (upper rc)) = [n]"
  shows "end_round d rc k = end_round d rc 0"
  by (simp add: end_round_def vote_result_single[OF assms])

lemma process_round_results_single:
  assumes "top_voted d rc r = [n]"
  shows "process_round_results d rc r k = process_round_results d rc r 0"
  by (simp add: process_round_results_def vote_result_single[OF assms])

section \<open>Scoring\<close>

lemma votes_received_0_iff:
  "votes_received d rc r name = 0 \<longleftrightarrow> name \<notin> set (voted_names d rc r)"
  by (auto simp: votes_received_def voted_names_def filter_empty_conv)

lemma unvoted_spy_iff:
  "unvoted_spy d rc r p \<longleftrightarrow> is_spy rc p \<and> votes_received d rc r (p_name p) = 0"
  by (auto simp: unvoted_spy_def is_spy_def votes_received_0_iff)

lemma set_spy_voters:
  "set (spy_voters d rc r) =
     {v_voter_name v |v. v \<in> set (round_votes d rc r) \<and>
        (\<exists>q \<in> set (players d). v_voted_name v = p_name q \<and> p_is_mafia q = Some True \<and>
                                  p_room_code q = rc)}"
  unfolding spy_voters_def by (simp add: set_eq_iff) blast

lemma voted_for_spy_iff:
  "voted_for_spy d rc r name \<longleftrightarrow> name \<in> set (spy_voters d rc r)"
  unfolding set_spy_voters voted_for_spy_def list_ex_iff is_spy_def by (simp) metis

lemma civilian_spy_voter_iff:
  "civilian_spy_voter d rc r p \<longleftrightarrow>
     p_room_code p = rc \<and> p_is_mafia p = Some False \<and> voted_for_spy d rc r (p_name p)"
  by (simp add: civilian_spy_voter_def voted_for_spy_iff)

text \<open>
  C4. Claim: when resolution eliminates a player who is not a spy, every spy who
  received no vote this round gets +1, spies with a vote get nothing, and no other
  score changes. Here \<open>en\<close> is the name the tally query returns, whichever of the
  names with the highest count that is (any choice \<open>k\<close>), and its player is not a spy.
  On both paths, \<^verbatim>\<open>process_round_results\<close> (for the room and round \<^verbatim>\<open>vote\<close> passes) and
  \<^verbatim>\<open>end_round\<close>, the resolution then leaves exactly the players with the scores of the
  unvoted spies of the room raised by one. The one exception is an unvoted spy whose
  score is the largest INT: then the scoring statement raises, the reply is an error
  and nothing is written.
\<close>

theorem civilian_eliminated_scoring:
  assumes top: "vote_result d rc r k = Some en"
      and row: "fetch_player d rc en = Some e"
      and civ: "p_is_mafia e \<noteq> Some True"
  shows "(\<not> list_ex (\<lambda>p. is_spy rc p \<and> votes_received d rc r (p_name p) = 0 \<and>
                          int4_max \<le> p_score p) (players d) \<longrightarrow>
            (\<exists>d'. process_round_results d rc r k = Inr d' \<and>
               players d' = map (\<lambda>p. if is_spy rc p \<and> votes_received d rc r (p_name p) = 0
                                      then p\<lparr>p_score := p_score p + 1\<rparr> else p) (players d)) \<and>
            (rc = upper room_code \<and> r = current_round d rc \<longrightarrow>
               fst (end_round d room_code k) = Inr (Eliminated en) \<and>
               players (snd (end_round d room_code k)) =
                 map (\<lambda>p. if is_spy rc p \<and> votes_received d rc r (p_name p) = 0
                           then p\<lparr>p_score := p_score p + 1\<rparr> else p) (players d))) \<and>
         (list_ex (\<lambda>p. is_spy rc p \<and> votes_received d rc r (p_name p) = 0 \<and>
                        int4_max \<le> p_score p) (players d) \<longrightarrow>
            process_round_results d rc r k = Inl (Unhandled ''NumericValueOutOfRangeError'') \<and>
            (rc = upper room_code \<and> r = current_round d rc \<longrightarrow>
               end_round d room_code k = (Inl (Unhandled ''NumericValueOutOfRangeError''), d)))"
proof -
  let ?over = "list_ex (\<lambda>p. is_spy rc p \<and> votes_received d rc r (p_name p) = 0 \<and>
                            int4_max \<le> p_score p) (players d)"
  let ?awarded = "map (\<lambda>p. if is_spy rc p \<and> votes_received d rc r (p_name p) = 0
                            then p\<lparr>p_score := p_score p + 1\<rparr> else p) (players d)"
  have over: "list_ex (\<lambda>p. unvoted_spy d rc r p \<and> int4_max \<le> p_score p) (players d) = ?over"
    by (simp add: unvoted_spy_iff conj_assoc)
  have written: "players (raise_scores d (unvoted_spy d c n)) =
      map (\<lambda>p. if is_spy c p \<and> votes_received d c n (p_name p) = 0
                then p\<lparr>p_score := p_score p + 1\<rparr> else p) (players d)" for c n
    by (simp add: raise_scores_simps unvoted_spy_iff)
  have sc: "award_unvoted_spies d rc r =
      (if ?over then Inl (Unhandled ''NumericValueOutOfRangeError'')
       else Inr (raise_scores d (unvoted_spy d rc r)))"
    by (simp add: award_unvoted_spies_def bump_scores_def over)
  have quorum: "process_round_results d rc r k =
      (if ?over then Inl (Unhandled ''NumericValueOutOfRangeError'')
       else Inr (resolved (raise_scores d (unvoted_spy d rc r)) rc r en (p_is_mafia e)))"
    using top row civ by (simp add: process_round_results_def resolved_def Let_def sc)
  have cmd: "end_round d room_code k =
      (if ?over then (Inl (Unhandled ''NumericValueOutOfRangeError''), d)
       else (Inr (Eliminated en),
             resolved (raise_scores d (unvoted_spy d rc r)) rc r en (p_is_mafia e)))"
    if here: "rc = upper room_code" "r = current_round d rc"
  proof -
    from here have "upper room_code = rc" and "current_round d rc = r"
      by simp_all
    with top row civ show ?thesis
      by (simp add: end_round_def resolved_def Let_def sc)
  qed
  show ?thesis
  proof (cases "rc = upper room_code \<and> r = current_round d rc")
    case True
    then have "end_round d room_code k =
      (if ?over then (Inl (Unhandled ''NumericValueOutOfRangeError''), d)
       else (Inr (Eliminated en),
             resolved (raise_scores d (unvoted_spy d rc r)) rc r en (p_is_mafia e)))"
      by (intro cmd) simp_all
    with quorum written show ?thesis
      by (cases ?over) (simp_all add: resolved_simps)
  next
    case False
    with quorum written show ?thesis
      by (cases ?over) (auto simp: resolved_simps)
  qed
qed

text \<open>
  In \<open>tied_votes\<close> the query can return Bob or Ann. With the choice of Ann, a civilian,
  the unvoted spy Cara gets the point on both paths.
\<close>

theorem civilian_eliminated_scoring_witness:
  "top_voted tied_votes ''ABCDEF'' 1 = [''Bob'', ''Ann''] \<and>
   vote_result tied_votes ''ABCDEF'' 1 1 = Some ''Ann'' \<and>
   fetch_player tied_votes ''ABCDEF'' ''Ann'' = Some (ex_player 1 ''Ann'' False) \<and>
   fst (end_round tied_votes ''abcdef'' 1) = Inr (Eliminated ''Ann'') \<and>
   map (\<lambda>p. (p_name p, p_is_mafia p, p_score p)) (players (snd (end_round tied_votes ''abcdef'' 1))) =
     [(''Ann'', Some False, 0), (''Bob'', Some False, 0), (''Cara'', Some True, 1)] \<and>
   map (\<lambda>p. (p_name p, p_is_mafia p, p_score p))
     (players (projr (process_round_results tied_votes ''ABCDEF'' 1 1))) =
     [(''Ann'', Some False, 0), (''Bob'', Some False, 0), (''Cara'', Some True, 1)]"
proof -
  have tie: "top_voted tied_votes ''ABCDEF'' 1 = [''Bob'', ''Ann'']"
    by code_simp
  have top: "vote_result tied_votes ''ABCDEF'' 1 1 = Some ''Ann''"
    by code_simp
  have row: "fetch_player tied_votes ''ABCDEF'' ''Ann'' = Some (ex_player 1 ''Ann'' False)"
    by code_simp
  have civ: "p_is_mafia (ex_player 1 ''Ann'' False) \<noteq> Some True"
    by (simp add: ex_player_def)
  have here: "''ABCDEF'' = upper ''abcdef''" "1 = current_round tied_votes ''ABCDEF''"
    by code_simp+
  have fits: "\<not> list_ex (\<lambda>p. is_spy ''ABCDEF'' p \<and> votes_received tied_votes ''ABCDEF'' 1 (p_name p) = 0 \<and>
                          int4_max \<le> p_score p) (players tied_votes)"
    by code_simp
  have scores: "map (\<lambda>p. (p_name p, p_is_mafia p, p_score p))
     (map (\<lambda>p. if is_spy ''ABCDEF'' p \<and> votes_received tied_votes ''ABCDEF'' 1 (p_name p) = 0
               then p\<lparr>p_score := p_score p + 1\<rparr> else p) (players tied_votes)) =
     [(''Ann'', Some False, 0), (''Bob'', Some False, 0), (''Cara'', Some True, 1)]"
    by code_simp
  from civilian_eliminated_scoring[OF top row civ, of "''abcdef''"] here fits scores tie top row
  show ?thesis by auto
qed

text \<open>The exception: the unvoted spy of \<open>full_score\<close> cannot be given another point.\<close>

lemma full_score_not_raised:
  "end_round full_score ''abcdef'' 0 = (Inl (Unhandled ''NumericValueOutOfRangeError''), full_score) \<and>
   process_round_results full_score ''ABCDEF'' 1 0 = Inl (Unhandled ''NumericValueOutOfRangeError'')"
  by code_simp

text \<open>
  On the quorum path the rule for an eliminated spy is the one of the spec: every
  civilian of the room who voted for some spy gets +1, and nobody else (unless one of
  them holds the largest INT).
\<close>

lemma spy_eliminated_scoring_on_quorum:
  assumes top: "vote_result d rc r k = Some en"
      and row: "fetch_player d rc en = Some e"
      and spy: "p_is_mafia e = Some True"
      and fits: "\<not> list_ex (\<lambda>p. civilian_spy_voter d rc r p \<and> int4_max \<le> p_score p) (players d)"
  shows "\<exists>d'. process_round_results d rc r k = Inr d' \<and>
            players d' = map (\<lambda>p. if p_room_code p = rc \<and> p_is_mafia p = Some False \<and>
                                      voted_for_spy d rc r (p_name p)
                                   then p\<lparr>p_score := p_score p + 1\<rparr> else p) (players d)"
  using assms
  by (simp add: process_round_results_def Let_def set_ended_simps insert_round_result_simps
      bump_scores_def raise_scores_simps civilian_spy_voter_iff)

text \<open>
  C3. Claim: when resolution eliminates a spy, every civilian who voted this round for
  any spy gets +1. \<^verbatim>\<open>end_round\<close> does not do that: in \<open>two_spies\<close> the spy Bob alone has
  the most votes and is voted out, whatever the choice of the query; the civilian Dan
  voted for the other spy Cara, and Dan's score stays 0; only Ann, who voted for Bob,
  gets the point.
\<close>

theorem end_round_skips_voters_for_other_spies:
  "top_voted two_spies ''ABCDEF'' 1 = [''Bob''] \<and>
   fetch_player two_spies ''ABCDEF'' ''Bob'' = Some (ex_player 2 ''Bob'' True) \<and>
   fetch_player two_spies ''ABCDEF'' ''Dan'' = Some (ex_player 4 ''Dan'' False) \<and>
   voted_for_spy two_spies ''ABCDEF'' 1 ''Dan'' \<and>
   (\<forall>k. fst (end_round two_spies ''abcdef'' k) = Inr (Eliminated ''Bob'') \<and>
        map (\<lambda>p. (p_name p, p_score p)) (players (snd (end_round two_spies ''abcdef'' k))) =
          [(''Ann'', 1), (''Bob'', 0), (''Cara'', 0), (''Dan'', 0)])"
proof -
  have single: "top_voted two_spies (upper ''abcdef'') (current_round two_spies (upper ''abcdef'')) =
      [''Bob'']"
    by code_simp
  have facts: "top_voted two_spies ''ABCDEF'' 1 = [''Bob''] \<and>
      fetch_player two_spies ''ABCDEF'' ''Bob'' = Some (ex_player 2 ''Bob'' True) \<and>
      fetch_player two_spies ''ABCDEF'' ''Dan'' = Some (ex_player 4 ''Dan'' False) \<and>
      voted_for_spy two_spies ''ABCDEF'' 1 ''Dan''"
    by code_simp
  have zero: "fst (end_round two_spies ''abcdef'' 0) = Inr (Eliminated ''Bob'') \<and>
      map (\<lambda>p. (p_name p, p_score p)) (players (snd (end_round two_spies ''abcdef'' 0))) =
        [(''Ann'', 1), (''Bob'', 0), (''Cara'', 0), (''Dan'', 0)]"
    by code_simp
  have any: "fst (end_round two_spies ''abcdef'' k) = Inr (Eliminated ''Bob'') \<and>
      map (\<lambda>p. (p_name p, p_score p)) (players (snd (end_round two_spies ''abcdef'' k))) =
        [(''Ann'', 1), (''Bob'', 0), (''Cara'', 0), (''Dan'', 0)]" for k
    unfolding end_round_single[OF single, of k] by (rule zero)
  from facts any show ?thesis
    by simp
qed

text \<open>
  C5. Claim: on the same votes and players the quorum path and the end-round command
  eliminate the same player, raise the same scores and record the same round result.
  In \<open>two_spies\<close>, whatever the choice of the query, they eliminate the same player and
  record the same result, and the scores differ: the quorum path gives Ann and Dan a
  point, end-round only Ann.
\<close>

theorem resolution_paths_score_differently:
  "top_voted two_spies ''ABCDEF'' 1 = [''Bob''] \<and>
   current_round two_spies ''ABCDEF'' = 1 \<and>
   (\<forall>k. \<not> isl (process_round_results two_spies ''ABCDEF'' 1 k) \<and>
        map (\<lambda>p. (p_name p, p_score p))
          (players (projr (process_round_results two_spies ''ABCDEF'' 1 k))) =
          [(''Ann'', 1), (''Bob'', 0), (''Cara'', 0), (''Dan'', 1)] \<and>
        map (\<lambda>p. (p_name p, p_score p)) (players (snd (end_round two_spies ''ABCDEF'' k))) =
          [(''Ann'', 1), (''Bob'', 0), (''Cara'', 0), (''Dan'', 0)] \<and>
        round_results (projr (process_round_results two_spies ''ABCDEF'' 1 k)) =
          round_results (snd (end_round two_spies ''ABCDEF'' k)))"
proof -
  have single: "top_voted two_spies ''ABCDEF'' 1 = [''Bob'']"
    "top_voted two_spies (upper ''ABCDEF'') (current_round two_spies (upper ''ABCDEF'')) = [''Bob'']"
    by code_simp+
  have round: "current_round two_spies ''ABCDEF'' = 1"
    by code_simp
  have zero: "\<not> isl (process_round_results two_spies ''ABCDEF'' 1 0) \<and>
        map (\<lambda>p. (p_name p, p_score p))
          (players (projr (process_round_results two_spies ''ABCDEF'' 1 0))) =
          [(''Ann'', 1), (''Bob'', 0), (''Cara'', 0), (''Dan'', 1)] \<and>
        map (\<lambda>p. (p_name p, p_score p)) (players (snd (end_round two_spies ''ABCDEF'' 0))) =
          [(''Ann'', 1), (''Bob'', 0), (''Cara'', 0), (''Dan'', 0)] \<and>
        round_results (projr (process_round_results two_spies ''ABCDEF'' 1 0)) =
          round_results (snd (end_round two_spies ''ABCDEF'' 0))"
    by code_simp
  have any: "\<not> isl (process_round_results two_spies ''ABCDEF'' 1 k) \<and>
        map (\<lambda>p. (p_name p, p_score p))
          (players (projr (process_round_results two_spies ''ABCDEF'' 1 k))) =
          [(''Ann'', 1), (''Bob'', 0), (''Cara'', 0), (''Dan'', 1)] \<and>
        map (\<lambda>p. (p_name p, p_score p)) (players (snd (end_round two_spies ''ABCDEF'' k))) =
          [(''Ann'', 1), (''Bob'', 0), (''Cara'', 0), (''Dan'', 0)] \<and>
        round_results (projr (process_round_results two_spies ''ABCDEF'' 1 k)) =
          round_results (snd (end_round two_spies ''ABCDEF'' k))" for k
    unfolding end_round_single[OF single(2), of k] process_round_results_single[OF single(1), of k]
    by (rule zero)
  from single(1) round any show ?thesis
    by simp
qed

text \<open>
  When the eliminated player is not a spy the two paths do the same: the same error,
  or the same database.
\<close>

lemma resolution_paths_agree_for_civilian:
  assumes "vote_result d (upper rc) (current_round d (upper rc)) k = Some en"
      and "fetch_player d (upper rc) en = Some e"
      and "p_is_mafia e \<noteq> Some True"
  shows "process_round_results d (upper rc) (current_round d (upper rc)) k =
           (case fst (end_round d rc k) of Inl err \<Rightarrow> Inl err | Inr rep \<Rightarrow> Inr (snd (end_round d rc k)))"
  using assms
  by (simp add: process_round_results_def end_round_def Let_def split: sum.splits)

section \<open>Round results\<close>

lemma score_step_bump:
  assumes "players d' = map (\<lambda>p. if P p then p\<lparr>p_score := p_score p + 1\<rparr> else p) (players d)"
  shows "score_step d d'"
  unfolding score_step_def assms by (simp add: list_all2_map2 list_all2_same)

lemma score_step_refl: "score_step d d"
  by (simp add: score_step_def list_all2_same)

lemma score_step_same_players: "players d' = players d \<Longrightarrow> score_step d d'"
  by (simp add: score_step_def list_all2_same)

lemma appended_result_resolved:
  assumes "round_results d1 = round_results d"
  shows "appended_result d (resolved d1 rc r en wm) rc r"
  by (simp add: appended_result_def resolved_simps assms)

lemma results_for_appended:
  assumes "round_results d' = round_results d \<or> appended_result d d' rc r"
  shows "length (results_for d' rc0 r0) \<le> Suc (length (results_for d rc0 r0))"
proof -
  from assms have "round_results d' = round_results d \<or>
      round_results d' = round_results d @ [last (round_results d')]"
    by (auto simp: appended_result_def)
  then show ?thesis
  proof
    assume "round_results d' = round_results d"
    then show ?thesis by (simp add: results_for_def)
  next
    assume *: "round_results d' = round_results d @ [last (round_results d')]"
    have "results_for d' rc0 r0 =
        filter (\<lambda>x. rr_room_code x = rc0 \<and> rr_round x = r0) (round_results d @ [last (round_results d')])"
      unfolding results_for_def by (subst *) simp
    then show ?thesis by (simp add: results_for_def)
  qed
qed

lemma vote_resolution:
  "(round_results (snd (vote d rc voter voted k)) = round_results d \<and>
      players (snd (vote d rc voter voted k)) = players d \<or>
    appended_result d (snd (vote d rc voter voted k)) (upper rc) (current_round d (upper rc))) \<and>
   score_step d (snd (vote d rc voter voted k))"
proof (cases rule: vote_cases[of d rc voter voted k])
  case (failed e)
  then show ?thesis by (simp add: score_step_refl)
next
  case recorded
  then show ?thesis
    by (simp add: upsert_vote_simps score_step_same_players)
next
  case (quorum en wm P)
  let ?d1 = "upsert_vote d (upper rc) (current_round d (upper rc)) voter voted"
  let ?d2 = "resolved (raise_scores ?d1 P) (upper rc) (current_round d (upper rc)) en wm"
  have "appended_result d ?d2 (upper rc) (current_round d (upper rc))"
    by (rule appended_result_resolved) (simp add: raise_scores_simps upsert_vote_simps)
  moreover have "score_step d ?d2"
    by (rule score_step_bump[where P = P])
       (simp add: resolved_simps raise_scores_simps upsert_vote_simps)
  ultimately show ?thesis using quorum by simp
qed

lemma end_round_resolution:
  "(isl (fst (end_round d rc k)) \<longrightarrow> snd (end_round d rc k) = d) \<and>
   (\<not> isl (fst (end_round d rc k)) \<longrightarrow>
      appended_result d (snd (end_round d rc k)) (upper rc) (current_round d (upper rc))) \<and>
   score_step d (snd (end_round d rc k))"
proof (cases rule: end_round_cases[of d rc k])
  case (failed e)
  then show ?thesis by (simp add: score_step_refl)
next
  case (resolved en e P)
  let ?d2 = "resolved (raise_scores d P) (upper rc) (current_round d (upper rc)) en (p_is_mafia e)"
  have "appended_result d ?d2 (upper rc) (current_round d (upper rc))"
    by (rule appended_result_resolved) (simp add: raise_scores_simps)
  moreover have "score_step d ?d2"
    by (rule score_step_bump[where P = P]) (simp add: resolved_simps raise_scores_simps)
  ultimately show ?thesis by (simp add: resolved(5))
qed

text \<open>
  C1, as the code has it. One vote or one end-round command resolves at most once: it
  appends at most one round result, for the room and its current round, and raises each
  player's score by at most one; an end-round that is not answered with an error appends
  exactly one, and one answered with an error changes nothing. (Nothing keeps a later
  command from resolving the same round again.)
\<close>

theorem one_command_resolves_at_most_once:
  "(round_results (snd (vote d rc voter voted k)) = round_results d \<and>
      players (snd (vote d rc voter voted k)) = players d \<or>
    appended_result d (snd (vote d rc voter voted k)) (upper rc) (current_round d (upper rc))) \<and>
   score_step d (snd (vote d rc voter voted k)) \<and>
   length (results_for (snd (vote d rc voter voted k)) rc0 r0) \<le> Suc (length (results_for d rc0 r0)) \<and>
   (isl (fst (end_round d rc k)) \<longrightarrow> snd (end_round d rc k) = d) \<and>
   (\<not> isl (fst (end_round d rc k)) \<longrightarrow>
      appended_result d (snd (end_round d rc k)) (upper rc) (current_round d (upper rc))) \<and>
   score_step d (snd (end_round d rc k)) \<and>
   length (results_for (snd (end_round d rc k)) rc0 r0) \<le> Suc (length (results_for d rc0 r0))"
proof -
  note v = vote_resolution[of d rc voter voted k]
  note e = end_round_resolution[of d rc k]
  from v have "length (results_for (snd (vote d rc voter voted k)) rc0 r0) \<le>
      Suc (length (results_for d rc0 r0))"
    by (intro results_for_appended) blast
  moreover from e have "length (results_for (snd (end_round d rc k)) rc0 r0) \<le>
      Suc (length (results_for d rc0 r0))"
    by (intro results_for_appended[where rc = "upper rc" and r = "current_round d (upper rc)"])
       (cases "isl (fst (end_round d rc k))"; simp)
  ultimately show ?thesis using v e by blast
qed

theorem one_command_resolves_at_most_once_witness:
  "\<not> isl (fst (end_round two_spies ''abcdef'' 0)) \<and>
   appended_result two_spies (snd (end_round two_spies ''abcdef'' 0)) ''ABCDEF'' 1 \<and>
   score_step two_spies (snd (end_round two_spies ''abcdef'' 0)) \<and>
   length (results_for two_spies ''ABCDEF'' 1) = 0 \<and>
   length (results_for (snd (end_round two_spies ''abcdef'' 0)) ''ABCDEF'' 1) = 1"
proof -
  have ok: "\<not> isl (fst (end_round two_spies ''abcdef'' 0))"
    by code_simp
  have here: "upper ''abcdef'' = ''ABCDEF''" "current_round two_spies ''ABCDEF'' = 1"
    by code_simp+
  have count: "length (results_for two_spies ''ABCDEF'' 1) = 0"
    "length (results_for (snd (end_round two_spies ''abcdef'' 0)) ''ABCDEF'' 1) = 1"
    by code_simp+
  from one_command_resolves_at_most_once[of two_spies "''abcdef''" "''Dan''" "''Bob''" 0 "''ABCDEF''" 1]
    ok here count
  show ?thesis by simp
qed

text \<open>
  C1, as the claim states it, fails. In the first round of \<open>round_one_cmds\<close> the third
  vote completes the quorum and resolves the round; an end-round command after it
  resolves the same round again, so there are two results for (ABCDEF, 1) and the
  scores of Ann and Cara are raised twice.
\<close>

theorem round_resolved_twice:
  "length (results_for (run empty_db round_one_cmds) ''ABCDEF'' 1) = 1 \<and>
   map (\<lambda>p. (p_name p, p_score p)) (players (run empty_db round_one_cmds)) =
     [(''Ann'', 1), (''Bob'', 0), (''Cara'', 1)] \<and>
   length (results_for (run empty_db (round_one_cmds @ [EndRound ''abcdef'' 0])) ''ABCDEF'' 1) = 2 \<and>
   map (\<lambda>p. (p_name p, p_score p)) (players (run empty_db (round_one_cmds @ [EndRound ''abcdef'' 0]))) =
     [(''Ann'', 2), (''Bob'', 0), (''Cara'', 2)]"
  by code_simp

text \<open>
  No choice of the tally query is involved: in both resolutions Bob alone has the most
  votes.
\<close>

lemma round_one_no_tie:
  "top_voted (run empty_db round_one_cmds) ''ABCDEF'' 1 = [''Bob''] \<and>
   votes (run empty_db (round_one_cmds @ [EndRound ''abcdef'' 0])) = votes (run empty_db round_one_cmds)"
  by code_simp

text \<open>
  The round of a result is \<^verbatim>\<open>MAX(round) or 1\<close> over the results recorded so far, which
  \<^verbatim>\<open>next_round\<close> does not advance: the result of the second round is recorded under
  round 1 as well, while the players carry round 2.
\<close>

lemma second_round_recorded_as_round_one:
  "map (\<lambda>x. (rr_round x, rr_eliminated_player x)) (round_results (run empty_db round_two_cmds)) =
     [(1, ''Bob''), (1, ''Cara'')] \<and>
   map p_round (players (run empty_db round_two_cmds)) = [2, 2, 2]"
  by code_simp

section \<open>Player ids\<close>

lemma ids_ok_iff:
  "ids_ok d \<longleftrightarrow> distinct (map p_id (players d)) \<and> (\<forall>i \<in> set (map p_id (players d)). i < players_id_seq d)"
  by (auto simp: ids_ok_def list_all_iff)

lemma ids_ok_same_ids:
  assumes "ids_ok d" and "map p_id (players d') = map p_id (players d)"
      and "players_id_seq d' = players_id_seq d"
  shows "ids_ok d'"
  using assms unfolding ids_ok_iff by simp

lemma ids_ok_insert_player:
  assumes "ids_ok d" and "players d1 = players d" and "players_id_seq d1 = players_id_seq d"
  shows "ids_ok (insert_player d1 rc name)"
  using assms unfolding ids_ok_iff
  by (auto simp: insert_player_def new_player_def less_Suc_eq)

lemma ids_ok_skip_player_id:
  assumes "ids_ok d"
  shows "ids_ok (skip_player_id d)"
  using assms unfolding ids_ok_iff by (auto simp: skip_player_id_def less_Suc_eq)

lemma ids_ok_resolved:
  assumes "ids_ok d" and "players d0 = players d" and "players_id_seq d0 = players_id_seq d"
  shows "ids_ok (resolved (raise_scores d0 P) rc r en wm)"
  using assms(1)
  by (rule ids_ok_same_ids)
     (simp_all add: resolved_simps raise_scores_simps assms(2,3) comp_def if_distrib cong: if_cong)

lemma create_room_ids:
  assumes "ids_ok d"
  shows "ids_ok (snd (create_room d mc name draws))"
  using assms
  by (auto simp: create_room_def ids_ok_skip_player_id intro: ids_ok_insert_player
      split: option.splits)

lemma join_room_ids:
  assumes "ids_ok d"
  shows "ids_ok (snd (join_room d rc name))"
  using assms
  by (auto simp: join_room_def Let_def ids_ok_skip_player_id intro: ids_ok_insert_player)

lemma start_round_snd:
  "snd (start_round d rc name ms resp) = d \<or>
   snd (start_round d rc name ms resp) =
     set_ongoing (snd (assign_words_and_roles d (room_player_ids d (upper rc)) ms 1 resp)) (upper rc)"
  by (simp add: start_round_def Let_def case_prod_beta split: option.splits)

lemma next_round_snd:
  "snd (next_round d rc name ms resp) = d \<or>
   (\<exists>n. snd (next_round d rc name ms resp) =
      (set_ongoing (snd (assign_words_and_roles d (room_player_ids d (upper rc)) ms n resp)) (upper rc))
        \<lparr>votes := filter (\<lambda>v. v_room_code v \<noteq> upper rc) (votes d)\<rparr>)"
  by (auto simp: next_round_def Let_def case_prod_beta set_ongoing_simps assign_simps
      split: option.splits)

lemma round_start_ids:
  assumes "ids_ok d"
  shows "ids_ok (snd (start_round d rc name ms resp))" and "ids_ok (snd (next_round d rc name ms resp))"
proof -
  have keep: "ids_ok (set_ongoing (snd (assign_words_and_roles d pids ms n resp)) c)" for pids n c
    using assms by (rule ids_ok_same_ids) (simp_all add: set_ongoing_simps assign_simps)
  from start_round_snd[of d rc name ms resp] assms keep
  show "ids_ok (snd (start_round d rc name ms resp))"
    by auto
  from next_round_snd[of d rc name ms resp] assms keep
  show "ids_ok (snd (next_round d rc name ms resp))"
    by (auto simp: ids_ok_def)
qed

lemma start_voting_ids:
  assumes "ids_ok d"
  shows "ids_ok (snd (start_voting d rc name))"
  using assms
  by (auto simp: start_voting_def Let_def ids_ok_iff split: option.splits)

lemma end_game_ids:
  assumes "ids_ok d"
  shows "ids_ok (snd (end_game d rc name))"
  using assms
  by (auto simp: end_game_def Let_def ids_ok_iff distinct_map_filter)

lemma vote_ids:
  assumes "ids_ok d"
  shows "ids_ok (snd (vote d rc voter voted k))"
proof (cases rule: vote_cases[of d rc voter voted k])
  case (failed e)
  with assms show ?thesis by simp
next
  case recorded
  with assms show ?thesis
    by (simp add: ids_ok_same_ids upsert_vote_simps)
next
  case (quorum en wm P)
  with assms show ?thesis
    by (simp add: ids_ok_resolved upsert_vote_simps)
qed

lemma end_round_ids:
  assumes "ids_ok d"
  shows "ids_ok (snd (end_round d rc k))"
proof (cases rule: end_round_cases[of d rc k])
  case (failed e)
  with assms show ?thesis by simp
next
  case (resolved en e P)
  with assms show ?thesis
    by (simp add: ids_ok_resolved)
qed

text \<open>
  Player ids are distinct in every database the commands can reach, which is what the
  role assignment relies on when it updates the rows by id.
\<close>

lemma handle_ids:
  assumes "ids_ok d"
  shows "ids_ok (snd (handle d c))"
  using assms
  by (cases c)
     (simp_all add: create_room_ids join_room_ids round_start_ids start_voting_ids end_game_ids
        vote_ids end_round_ids)

lemma run_ids:
  assumes "ids_ok d"
  shows "ids_ok (run d cs)"
  using assms by (induction cs arbitrary: d) (simp_all add: handle_ids)

lemma reachable_ids_distinct: "distinct (map p_id (players (run empty_db cs)))"
  using run_ids[OF empty_db_ok(4), of cs] by (simp add: ids_ok_def)

section \<open>The two scoring rules on the examples\<close>

lemma spy_eliminated_scoring_on_quorum_witness:
  "vote_result two_spies ''ABCDEF'' 1 0 = Some ''Bob'' \<and>
   fetch_player two_spies ''ABCDEF'' ''Bob'' = Some (ex_player 2 ''Bob'' True) \<and>
   map (\<lambda>p. (p_name p, p_score p)) (players (projr (process_round_results two_spies ''ABCDEF'' 1 0))) =
     [(''Ann'', 1), (''Bob'', 0), (''Cara'', 0), (''Dan'', 1)]"
proof -
  have top: "vote_result two_spies ''ABCDEF'' 1 0 = Some ''Bob''"
    by code_simp
  have row: "fetch_player two_spies ''ABCDEF'' ''Bob'' = Some (ex_player 2 ''Bob'' True)"
    by code_simp
  have spy: "p_is_mafia (ex_player 2 ''Bob'' True) = Some True"
    by (simp add: ex_player_def)
  have fits: "\<not> list_ex (\<lambda>p. civilian_spy_voter two_spies ''ABCDEF'' 1 p \<and> int4_max \<le> p_score p)
      (players two_spies)"
    by code_simp
  have scores: "map (\<lambda>p. (p_name p, p_score p))
      (map (\<lambda>p. if p_room_code p = ''ABCDEF'' \<and> p_is_mafia p = Some False \<and>
                    voted_for_spy two_spies ''ABCDEF'' 1 (p_name p)
                 then p\<lparr>p_score := p_score p + 1\<rparr> else p) (players two_spies)) =
      [(''Ann'', 1), (''Bob'', 0), (''Cara'', 0), (''Dan'', 1)]"
    by code_simp
  from spy_eliminated_scoring_on_quorum[OF top row spy fits] obtain d' where
    "process_round_results two_spies ''ABCDEF'' 1 0 = Inr d'"
    "players d' = map (\<lambda>p. if p_room_code p = ''ABCDEF'' \<and> p_is_mafia p = Some False \<and>
                    voted_for_spy two_spies ''ABCDEF'' 1 (p_name p)
                 then p\<lparr>p_score := p_score p + 1\<rparr> else p) (players two_spies)"
    by blast
  with top row scores show ?thesis by simp
qed

lemma resolution_paths_agree_for_civilian_witness:
  "fst (end_round tied_votes ''abcdef'' 1) = Inr (Eliminated ''Ann'') \<and>
   process_round_results tied_votes (upper ''abcdef'') (current_round tied_votes (upper ''abcdef'')) 1 =
     Inr (snd (end_round tied_votes ''abcdef'' 1))"
proof -
  have top: "vote_result tied_votes (upper ''abcdef'') (current_round tied_votes (upper ''abcdef'')) 1 =
      Some ''Ann''"
    by code_simp
  have row: "fetch_player tied_votes (upper ''abcdef'') ''Ann'' = Some (ex_player 1 ''Ann'' False)"
    by code_simp
  have civ: "p_is_mafia (ex_player 1 ''Ann'' False) \<noteq> Some True"
    by (simp add: ex_player_def)
  have ok: "fst (end_round tied_votes ''abcdef'' 1) = Inr (Eliminated ''Ann'')"
    by code_simp
  from resolution_paths_agree_for_civilian[OF top row civ] ok show ?thesis
    by simp
qed

end
